theory Spec2Isabelle
  imports Main "HOL-Library.AList"
begin

section \<open>Python strings\<close>

text \<open>
  A Python \<open>str\<close> is a sequence of Unicode code points; a code point is modelled as a
  natural number and a string as a list of them.  \<open>lit\<close> turns an ASCII literal of the
  source into such a list.
\<close>

type_synonym pystr = "nat list"

definition lit :: "string \<Rightarrow> pystr" where
  "lit s = map of_char s"

text \<open>
  \<open>str.isspace\<close> for one code point: the code points CPython treats as whitespace in
  \<open>str.split()\<close> and \<open>str.strip()\<close> (tab to carriage return, the separators
  0x1C-0x1F, space, NEL 0x85, the non-breaking space 0xA0, 0x1680, 0x2000-0x200A,
  0x2028, 0x2029, 0x202F, 0x205F, 0x3000).
\<close>

definition py_isspace :: "nat \<Rightarrow> bool" where
  "py_isspace c \<longleftrightarrow>
     (9 \<le> c \<and> c \<le> 13) \<or> (28 \<le> c \<and> c \<le> 32) \<or> c = 133 \<or> c = 160 \<or> c = 5760 \<or>
     (8192 \<le> c \<and> c \<le> 8202) \<or> c = 8232 \<or> c = 8233 \<or> c = 8239 \<or> c = 8287 \<or> c = 12288"

text \<open>\<open>s.strip()\<close>: leading and trailing whitespace removed.\<close>

definition py_strip :: "pystr \<Rightarrow> pystr" where
  "py_strip s = rev (dropWhile py_isspace (rev (dropWhile py_isspace s)))"

text \<open>\<open>s.rstrip(":")\<close>: trailing occurrences of the given character removed.\<close>

definition py_rstrip_char :: "nat \<Rightarrow> pystr \<Rightarrow> pystr" where
  "py_rstrip_char ch s = rev (dropWhile (\<lambda>c. c = ch) (rev s))"

text \<open>
  \<open>s.split()\<close>: the maximal runs of non-whitespace code points, in order.  The first
  argument is the word being scanned.
\<close>

fun split_from :: "pystr \<Rightarrow> pystr \<Rightarrow> pystr list" where
  "split_from cur [] = (if cur = [] then [] else [cur])"
| "split_from cur (c # cs) =
     (if py_isspace c then (if cur = [] then split_from [] cs else cur # split_from [] cs)
      else split_from (cur @ [c]) cs)"

definition py_split :: "pystr \<Rightarrow> pystr list" where
  "py_split s = split_from [] s"

text \<open>\<open>sep.join(parts)\<close>.\<close>

fun py_join :: "pystr \<Rightarrow> pystr list \<Rightarrow> pystr" where
  "py_join sep [] = []"
| "py_join sep [x] = x"
| "py_join sep (x # y # ys) = x @ sep @ py_join sep (y # ys)"

text \<open>\<open>s.replace(old, new)\<close> for one-character \<open>old\<close> and \<open>new\<close>.\<close>

definition py_replace_char :: "nat \<Rightarrow> nat \<Rightarrow> pystr \<Rightarrow> pystr" where
  "py_replace_char old new s = map (\<lambda>c. if c = old then new else c) s"

text \<open>\<open>s.startswith(p)\<close> and \<open>sub in s\<close>.\<close>

definition py_startswith :: "pystr \<Rightarrow> pystr \<Rightarrow> bool" where
  "py_startswith s p \<longleftrightarrow> take (length p) s = p"

fun py_contains :: "pystr \<Rightarrow> pystr \<Rightarrow> bool" where
  "py_contains sub [] = (sub = [])"
| "py_contains sub (c # cs) = (py_startswith (c # cs) sub \<or> py_contains sub cs)"

text \<open>
  \<open>s.lower()\<close> on the letters \<open>A\<close> to \<open>Z\<close>; the prefixes the scrapers compare
  against are lower-case ASCII.
\<close>

definition py_lower :: "pystr \<Rightarrow> pystr" where
  "py_lower s = map (\<lambda>c. if 65 \<le> c \<and> c \<le> 90 then c + 32 else c) s"

section \<open>The field normalizer\<close>

text \<open>
  \<^verbatim>\<open>scrape_bios_playwright.py\<close>:
  \<^verbatim>\<open>return " ".join(s.replace("\xa0", " ").split()).strip()\<close>
\<close>

definition normalize_playwright :: "pystr \<Rightarrow> pystr" where
  "normalize_playwright s = py_strip (py_join [32] (py_split (py_replace_char 160 32 s)))"

text \<open>
  \<^verbatim>\<open>scrape_bios_requests.py\<close>: the same, after \<^verbatim>\<open>if not s: return ""\<close>.
\<close>

definition normalize_requests :: "pystr \<Rightarrow> pystr" where
  "normalize_requests s =
     (if s = [] then [] else py_strip (py_join [32] (py_split (py_replace_char 160 32 s))))"

text \<open>
  The shape of a normalized text: words, that is non-empty runs without whitespace,
  and a test for two adjacent whitespace code points.
\<close>

definition is_word :: "pystr \<Rightarrow> bool" where
  "is_word w \<longleftrightarrow> w \<noteq> [] \<and> list_all (\<lambda>c. \<not> py_isspace c) w"

fun has_ws_run :: "pystr \<Rightarrow> bool" where
  "has_ws_run (c # d # r) = ((py_isspace c \<and> py_isspace d) \<or> has_ws_run (d # r))"
| "has_ws_run _ = False"

section \<open>Rows of a CSV file\<close>

datatype py_error =
  ValueError | TypeError | AttributeError | KeyError | IntegrityError | OverflowError

text \<open>
  What \<^verbatim>\<open>csv.DictReader\<close> stores in a row dictionary: a cell of the line (a string),
  \<^verbatim>\<open>None\<close> (the \<^verbatim>\<open>restval\<close> of a column the line is too short for), or the list of the
  surplus cells of a line longer than the header (stored under the key \<^verbatim>\<open>None\<close>, the
  \<^verbatim>\<open>restkey\<close>).  A dictionary is an association list in insertion order;
  \<open>AList.update\<close> replaces the value of a key that is present and appends a new key,
  as assignment to a Python dictionary does.
\<close>

datatype cell = CNone | CStr pystr | CList "pystr list"

type_synonym csv_row = "(pystr option \<times> cell) list"

definition DictReader_row :: "pystr list \<Rightarrow> pystr list \<Rightarrow> csv_row" where
  "DictReader_row fieldnames row =
     (let d = fold (\<lambda>(k, v). AList.update (Some k) (CStr v)) (zip fieldnames row) [];
          lf = length fieldnames;
          lr = length row
      in if lf < lr then AList.update None (CList (drop lf row)) d
         else if lf > lr then fold (\<lambda>key. AList.update (Some key) CNone) (drop lr fieldnames) d
         else d)"

text \<open>
  The rows of a file, given as the lines \<^verbatim>\<open>csv.reader\<close> parses it into: the first line
  is the header, and lines without any cell are skipped.
\<close>

definition DictReader :: "pystr list list \<Rightarrow> csv_row list" where
  "DictReader lines =
     (case lines of
        [] \<Rightarrow> []
      | fieldnames # rows \<Rightarrow> map (DictReader_row fieldnames) (filter (\<lambda>r. r \<noteq> []) rows))"

text \<open>\<^verbatim>\<open>row.get(key, default)\<close>; without a default it is \<^verbatim>\<open>None\<close>.\<close>

definition row_get :: "csv_row \<Rightarrow> pystr \<Rightarrow> cell \<Rightarrow> cell" where
  "row_get row key dflt = (case map_of row (Some key) of None \<Rightarrow> dflt | Some v \<Rightarrow> v)"

text \<open>
  \<^verbatim>\<open>(val or "").strip()\<close>: \<^verbatim>\<open>None\<close>, the empty string and the empty list are falsy and
  give \<^verbatim>\<open>"".strip()\<close>; a non-empty list has no \<^verbatim>\<open>strip\<close>.
\<close>

definition or_empty_strip :: "cell \<Rightarrow> py_error + pystr" where
  "or_empty_strip val =
     (case val of
        CNone \<Rightarrow> Inr []
      | CStr s \<Rightarrow> Inr (py_strip s)
      | CList xs \<Rightarrow> if xs = [] then Inr [] else Inl AttributeError)"

section \<open>The record coercer (db\_loader.py)\<close>

text \<open>
  The builtin \<^verbatim>\<open>int\<close> on a string: whitespace around the number is skipped (the
  whitespace of \<open>str.isspace\<close> except the separators 0x1C-0x1F), then an optional sign,
  then decimal digits, where single underscores may stand between digits.  Anything
  else raises \<^verbatim>\<open>ValueError\<close>; an argument that is \<^verbatim>\<open>None\<close> or a list raises
  \<^verbatim>\<open>TypeError\<close>.  A digit is a character with a decimal value in the character
  database of the interpreter (CPython 3.11, Unicode 14): each script has its digits
  0 to 9 at ten successive code points, and \<open>decimal_digit_zeros\<close> lists the code
  point of the digit 0 of each.  A numeral of more than 4300 digits raises
  \<^verbatim>\<open>ValueError\<close> (the default of \<^verbatim>\<open>sys.get_int_max_str_digits()\<close>).
\<close>

definition decimal_digit_zeros :: "nat list" where
  "decimal_digit_zeros =
     [48, 1632, 1776, 1984, 2406, 2534, 2662, 2790, 2918, 3046, 3174, 3302, 3430, 3558,
      3664, 3792, 3872, 4160, 4240, 6112, 6160, 6470, 6608, 6784, 6800, 6992, 7088, 7232,
      7248, 42528, 43216, 43264, 43472, 43504, 43600, 44016, 65296, 66720, 68912, 69734,
      69872, 69942, 70096, 70384, 70736, 70864, 71248, 71360, 71472, 71904, 72016, 72784,
      73040, 73120, 92768, 92864, 93008, 120782, 120792, 120802, 120812, 120822, 123200,
      123632, 125264, 130032]"

definition digit_value :: "nat \<Rightarrow> nat option" where
  "digit_value c =
     (case filter (\<lambda>z. z \<le> c \<and> c < z + 10) decimal_digit_zeros of
        [] \<Rightarrow> None
      | z # zs \<Rightarrow> Some (c - z))"

definition is_digit :: "nat \<Rightarrow> bool" where
  "is_digit c \<longleftrightarrow> digit_value c \<noteq> None"

definition int_isspace :: "nat \<Rightarrow> bool" where
  "int_isspace c \<longleftrightarrow> py_isspace c \<and> \<not> (28 \<le> c \<and> c \<le> 31)"

fun parse_digits :: "nat \<Rightarrow> pystr \<Rightarrow> nat option" where
  "parse_digits acc [] = Some acc"
| "parse_digits acc [c] = (case digit_value c of None \<Rightarrow> None | Some v \<Rightarrow> Some (10 * acc + v))"
| "parse_digits acc (c # d # ds) =
     (case digit_value c of
        Some v \<Rightarrow> parse_digits (10 * acc + v) (d # ds)
      | None \<Rightarrow>
          if c = 95
          then (case digit_value d of None \<Rightarrow> None | Some w \<Rightarrow> parse_digits (10 * acc + w) ds)
          else None)"

definition parse_decimal :: "pystr \<Rightarrow> nat option" where
  "parse_decimal s =
     (case s of
        [] \<Rightarrow> None
      | c # cs \<Rightarrow> (case digit_value c of None \<Rightarrow> None | Some v \<Rightarrow> parse_digits v cs))"

definition py_int_str :: "pystr \<Rightarrow> py_error + int" where
  "py_int_str s =
     (case rev (dropWhile int_isspace (rev (dropWhile int_isspace s))) of
        [] \<Rightarrow> Inl ValueError
      | c # cs \<Rightarrow>
          (let numeral = (if c = 45 \<or> c = 43 then cs else c # cs) in
           case parse_decimal numeral of
             None \<Rightarrow> Inl ValueError
           | Some n \<Rightarrow>
               if 4300 < length (filter is_digit numeral) then Inl ValueError
               else Inr (if c = 45 then - int n else int n)))"

definition py_int :: "cell \<Rightarrow> py_error + int" where
  "py_int v = (case v of CStr s \<Rightarrow> py_int_str s | _ \<Rightarrow> Inl TypeError)"

text \<open>
  \<^verbatim>\<open>_coerce_int\<close>: \<^verbatim>\<open>try: return int(value)\<close>, \<^verbatim>\<open>except Exception: return None\<close>.
\<close>

definition coerce_int :: "cell \<Rightarrow> int option" where
  "coerce_int v = (case py_int v of Inl e \<Rightarrow> None | Inr n \<Rightarrow> Some n)"

text \<open>
  A value of a keyword dictionary of \<^verbatim>\<open>Stats\<close>.  \<^verbatim>\<open>_coerce_float\<close> has the shape of
  \<^verbatim>\<open>_coerce_int\<close> and never raises; parsing a floating-point number is not modelled,
  and \<open>FloatOf v\<close> stands for what \<^verbatim>\<open>_coerce_float\<close> returns for the cell \<open>v\<close>.
\<close>

datatype field = IntField "int option" | FloatOf cell | StrField pystr

definition coerce_float :: "cell \<Rightarrow> field" where
  "coerce_float v = FloatOf v"

text \<open>The \<^verbatim>\<open>Bio\<close> model of models.py.\<close>

record Bio =
  Number :: "int option"
  Player :: "pystr option"
  FirstName :: pystr
  LastName :: pystr
  Position :: "pystr option"
  Height :: "pystr option"
  Weight :: "pystr option"
  Class :: "pystr option"
  Hometown :: "pystr option"
  HighSchool :: "pystr option"

text \<open>
  The body of the loop of \<^verbatim>\<open>make_bio_instances\<close> (and of \<^verbatim>\<open>load_bios\<close>): one \<^verbatim>\<open>Bio\<close>
  from one row.  The keyword arguments are evaluated in the order they are written, and
  the first exception ends the evaluation.
\<close>

definition bind_err :: "'e + 'a \<Rightarrow> ('a \<Rightarrow> 'e + 'b) \<Rightarrow> 'e + 'b" where
  "bind_err r f = (case r of Inl e \<Rightarrow> Inl e | Inr x \<Rightarrow> f x)"

definition make_bio_row :: "csv_row \<Rightarrow> py_error + Bio" where
  "make_bio_row row =
     (let num = coerce_int (row_get row (lit ''Number'') (CStr [])) in
      bind_err (or_empty_strip (row_get row (lit ''Player'') CNone)) (\<lambda>player.
      bind_err (or_empty_strip (row_get row (lit ''FirstName'') CNone)) (\<lambda>first.
      bind_err (or_empty_strip (row_get row (lit ''LastName'') CNone)) (\<lambda>last_name.
      bind_err (or_empty_strip (row_get row (lit ''Position'') CNone)) (\<lambda>position.
      bind_err (or_empty_strip (row_get row (lit ''Height'') CNone)) (\<lambda>height.
      bind_err (or_empty_strip (row_get row (lit ''Weight'') CNone)) (\<lambda>weight.
      bind_err (or_empty_strip (row_get row (lit ''Class'') CNone)) (\<lambda>cls.
      bind_err (or_empty_strip (row_get row (lit ''Hometown'') CNone)) (\<lambda>hometown.
      bind_err (or_empty_strip (row_get row (lit ''HighSchool'') CNone)) (\<lambda>high_school.
      Inr \<lparr>Number = num, Player = Some player, FirstName = first, LastName = last_name,
           Position = Some position, Height = Some height, Weight = Some weight,
           Class = Some cls, Hometown = Some hometown,
           HighSchool = Some high_school\<rparr>))))))))))"

text \<open>A \<^verbatim>\<open>for\<close> loop that appends one record per row; an exception ends it.\<close>

fun for_rows :: "('r \<Rightarrow> py_error + 'a) \<Rightarrow> 'r list \<Rightarrow> py_error + 'a list" where
  "for_rows f [] = Inr []"
| "for_rows f (row # rows) =
     (case f row of
        Inl e \<Rightarrow> Inl e
      | Inr x \<Rightarrow> (case for_rows f rows of Inl e \<Rightarrow> Inl e | Inr xs \<Rightarrow> Inr (x # xs)))"

definition make_bio_instances :: "pystr list list \<Rightarrow> py_error + Bio list" where
  "make_bio_instances csv_lines = for_rows make_bio_row (DictReader csv_lines)"

text \<open>
  \<^verbatim>\<open>make_stats_instances\<close> (and \<^verbatim>\<open>load_stats\<close>).  \<open>kwargs\<close> is the dictionary \<^verbatim>\<open>kw\<close>;
  its keys are those of the row, so \<^verbatim>\<open>None\<close> can be one.
\<close>

type_synonym kwargs = "pystr option \<rightharpoonup> field"

definition int_fields :: "pystr list" where
  "int_fields = map lit [''GP'', ''G'', ''A'', ''PTS'', ''SH'', ''plus_minus'', ''PPG'', ''SHG'',
     ''FG'', ''GWG'', ''GTG'', ''OTG'', ''HTG'', ''UAG'', ''MIN'', ''MAJ'', ''OTH'', ''BLK'',
     ''Number'']"

text \<open>The loop \<^verbatim>\<open>for key, val in row.items()\<close>.\<close>

fun stats_items :: "csv_row \<Rightarrow> kwargs \<Rightarrow> py_error + kwargs" where
  "stats_items [] kw = Inr kw"
| "stats_items ((key, val) # items) kw =
     (if key \<in> set [Some (lit ''Number''), Some (lit ''FirstName''), Some (lit ''LastName'')]
      then stats_items items kw
      else if key = Some (lit ''PN-PIM'')
      then (case or_empty_strip val of
              Inl e \<Rightarrow> Inl e
            | Inr s \<Rightarrow> stats_items items (kw(Some (lit ''PN_PIM'') \<mapsto> StrField s)))
      else if key \<in> set (map Some int_fields)
      then stats_items items (kw(key \<mapsto> IntField (coerce_int val)))
      else if key = Some (lit ''SH_PCT'')
      then stats_items items (kw(key \<mapsto> coerce_float val))
      else (case or_empty_strip val of
              Inl e \<Rightarrow> Inl e
            | Inr s \<Rightarrow> stats_items items (kw(key \<mapsto> StrField s))))"

text \<open>
  \<^verbatim>\<open>Stats(**kw)\<close>.  The keys of keyword arguments must be strings.  \<^verbatim>\<open>Stats\<close> is a
  table model, and its constructor is SQLModel's, not the repository's: it sets the
  fields the class declares (models.py) for which there is a keyword to the value
  given, leaves the other declared fields at their default \<^verbatim>\<open>None\<close>, and ignores a
  keyword that is not a declared field.  A record is the map from the names of the
  fields that were set to their values.
\<close>

definition Stats_fields :: "pystr list" where
  "Stats_fields = map lit [''Number'', ''FirstName'', ''LastName'', ''GP'', ''G'', ''A'', ''PTS'',
     ''SH'', ''SH_PCT'', ''plus_minus'', ''PPG'', ''SHG'', ''FG'', ''GWG'', ''GTG'', ''OTG'',
     ''HTG'', ''UAG'', ''PN_PIM'', ''MIN'', ''MAJ'', ''OTH'', ''BLK'']"

type_synonym Stats = "pystr \<rightharpoonup> field"

definition Stats_of :: "kwargs \<Rightarrow> py_error + Stats" where
  "Stats_of kw =
     (if kw None \<noteq> None then Inl TypeError
      else Inr (\<lambda>k. if k \<in> set Stats_fields then kw (Some k) else None))"

definition make_stats_row :: "csv_row \<Rightarrow> py_error + Stats" where
  "make_stats_row row =
     (let kw0 = [Some (lit ''Number'') \<mapsto> IntField (coerce_int (row_get row (lit ''Number'') (CStr [])))] in
      bind_err (or_empty_strip (row_get row (lit ''FirstName'') CNone)) (\<lambda>first.
      bind_err (or_empty_strip (row_get row (lit ''LastName'') CNone)) (\<lambda>last_name.
      bind_err (stats_items row
                  (kw0(Some (lit ''FirstName'') \<mapsto> StrField first,
                       Some (lit ''LastName'') \<mapsto> StrField last_name))) Stats_of)))"

definition make_stats_instances :: "pystr list list \<Rightarrow> py_error + Stats list" where
  "make_stats_instances csv_lines = for_rows make_stats_row (DictReader csv_lines)"

section \<open>The persistence layer (db\_loader.py, init.py)\<close>

text \<open>
  The database holds the two tables.  The session and the storage engine are
  SQLModel's (SQLAlchemy over SQLite): the repository imports them, and what they do is
  taken from the specification, which has the records of a load inserted "in a single
  all-or-nothing transaction" whose failure "aborts the entire batch".  The
  definitions that stand for them are marked.  The engine decides which record it
  refuses, and with which exception; that decision is a parameter of the model:
  \<open>refuses_bio e d b\<close> is the exception, if any, for inserting \<open>b\<close> into the tables \<open>d\<close>.
\<close>

record hurst_db =
  bio_table :: "Bio list"
  stats_table :: "Stats list"

record session =
  db :: hurst_db
  new_bios :: "Bio list"
  new_stats :: "Stats list"

record engine =
  refuses_bio :: "hurst_db \<Rightarrow> Bio \<Rightarrow> py_error option"
  refuses_stats :: "hurst_db \<Rightarrow> Stats \<Rightarrow> py_error option"

text \<open>
  Modelled from the spec: \<^verbatim>\<open>Session(engine)\<close>, a session on the database with no
  pending record.
\<close>

definition Session :: "hurst_db \<Rightarrow> session" where
  "Session d = \<lparr>db = d, new_bios = [], new_stats = []\<rparr>"

text \<open>Modelled from the spec: \<^verbatim>\<open>session.add_all\<close> makes the records pending, in their order.\<close>

definition add_all_bios :: "Bio list \<Rightarrow> session \<Rightarrow> session" where
  "add_all_bios bios s = s\<lparr>new_bios := new_bios s @ bios\<rparr>"

definition add_all_stats :: "Stats list \<Rightarrow> session \<Rightarrow> session" where
  "add_all_stats rows s = s\<lparr>new_stats := new_stats s @ rows\<rparr>"

text \<open>
  Modelled from the spec: the inserts of one transaction.  The records are inserted
  one after the other into the tables as the transaction sees them; the first record
  the engine refuses ends the transaction with its exception.
\<close>

fun insert_bios :: "engine \<Rightarrow> Bio list \<Rightarrow> hurst_db \<Rightarrow> py_error + hurst_db" where
  "insert_bios e [] d = Inr d"
| "insert_bios e (b # bs) d =
     (case refuses_bio e d b of
        Some exc \<Rightarrow> Inl exc
      | None \<Rightarrow> insert_bios e bs (d\<lparr>bio_table := bio_table d @ [b]\<rparr>))"

fun insert_stats :: "engine \<Rightarrow> Stats list \<Rightarrow> hurst_db \<Rightarrow> py_error + hurst_db" where
  "insert_stats e [] d = Inr d"
| "insert_stats e (r # rs) d =
     (case refuses_stats e d r of
        Some exc \<Rightarrow> Inl exc
      | None \<Rightarrow> insert_stats e rs (d\<lparr>stats_table := stats_table d @ [r]\<rparr>))"

text \<open>
  Modelled from the spec: \<^verbatim>\<open>session.commit()\<close>.  The pending records are inserted in
  one transaction, the bios before the stats that refer to them.  When an insert
  raises, the exception goes to the caller and the transaction is rolled back: the
  session keeps the tables as they were before it.  Otherwise the transaction becomes
  the state of the database, and nothing is pending.
\<close>

definition commit :: "engine \<Rightarrow> session \<Rightarrow> py_error + session" where
  "commit e s =
     (case bind_err (insert_bios e (new_bios s) (db s)) (insert_stats e (new_stats s)) of
        Inl exc \<Rightarrow> Inl exc
      | Inr d \<Rightarrow> Inr \<lparr>db = d, new_bios = [], new_stats = []\<rparr>)"

text \<open>
  Modelled from the spec: an engine for the examples, SQLite with the tables of
  models.py.  It refuses an integer outside the 64-bit range with \<^verbatim>\<open>OverflowError\<close>,
  and a record whose composite primary key (\<^verbatim>\<open>FirstName\<close>, \<^verbatim>\<open>LastName\<close>) is in the table
  already with \<^verbatim>\<open>IntegrityError\<close>, the collision the specification names.  It does
  not check the foreign keys of \<^verbatim>\<open>Stats\<close>, as SQLite does not unless it is told to.
\<close>

definition bio_key :: "Bio \<Rightarrow> pystr \<times> pystr" where
  "bio_key b = (FirstName b, LastName b)"

definition stats_key :: "Stats \<Rightarrow> field option \<times> field option" where
  "stats_key r = (r (lit ''FirstName''), r (lit ''LastName''))"

definition sqlite_integer :: "int option \<Rightarrow> bool" where
  "sqlite_integer v = (case v of None \<Rightarrow> True | Some n \<Rightarrow> - (2 ^ 63) \<le> n \<and> n < 2 ^ 63)"

definition stats_integers :: "Stats \<Rightarrow> bool" where
  "stats_integers r =
     list_all (\<lambda>k. case r k of Some (IntField v) \<Rightarrow> sqlite_integer v | _ \<Rightarrow> True) int_fields"

definition sqlite :: engine where
  "sqlite =
     \<lparr>refuses_bio = (\<lambda>d b.
        if \<not> sqlite_integer (Number b) then Some OverflowError
        else if bio_key b \<in> set (map bio_key (bio_table d)) then Some IntegrityError
        else None),
      refuses_stats = (\<lambda>d r.
        if \<not> stats_integers r then Some OverflowError
        else if stats_key r \<in> set (map stats_key (stats_table d)) then Some IntegrityError
        else None)\<rparr>"

text \<open>
  The scripts return the exception that ended them, if any, and the database they
  leave behind.  \<^verbatim>\<open>load_bios\<close> and \<^verbatim>\<open>load_stats\<close> of db\_loader.py:
\<close>

definition load_bios :: "engine \<Rightarrow> pystr list list \<Rightarrow> hurst_db \<Rightarrow> py_error option \<times> hurst_db" where
  "load_bios e csv_lines d =
     (case make_bio_instances csv_lines of
        Inl exc \<Rightarrow> (Some exc, d)
      | Inr bios \<Rightarrow>
          (case commit e (add_all_bios bios (Session d)) of
             Inl exc \<Rightarrow> (Some exc, d)
           | Inr s \<Rightarrow> (None, db s)))"

definition load_stats :: "engine \<Rightarrow> pystr list list \<Rightarrow> hurst_db \<Rightarrow> py_error option \<times> hurst_db" where
  "load_stats e csv_lines d =
     (case make_stats_instances csv_lines of
        Inl exc \<Rightarrow> (Some exc, d)
      | Inr rows \<Rightarrow>
          (case commit e (add_all_stats rows (Session d)) of
             Inl exc \<Rightarrow> (Some exc, d)
           | Inr s \<Rightarrow> (None, db s)))"

text \<open>
  init.py: one session; the bios are added and committed, then the stats are built,
  added and committed.
\<close>

definition init_script ::
  "engine \<Rightarrow> pystr list list \<Rightarrow> pystr list list \<Rightarrow> hurst_db \<Rightarrow> py_error option \<times> hurst_db" where
  "init_script e bio_csv stats_csv d =
     (case make_bio_instances bio_csv of
        Inl exc \<Rightarrow> (Some exc, d)
      | Inr bios \<Rightarrow>
          (case commit e (add_all_bios bios (Session d)) of
             Inl exc \<Rightarrow> (Some exc, d)
           | Inr s1 \<Rightarrow>
               (case make_stats_instances stats_csv of
                  Inl exc \<Rightarrow> (Some exc, db s1)
                | Inr stats \<Rightarrow>
                    (case commit e (add_all_stats stats s1) of
                       Inl exc \<Rightarrow> (Some exc, db s1)
                     | Inr s2 \<Rightarrow> (None, db s2)))))"

section \<open>The scrapers\<close>

text \<open>
  A document is given by what the selectors of the scrapers find in it.  The name
  element has a text of its own and the texts of the \<^verbatim>\<open>span\<close> elements inside it; a
  \<^verbatim>\<open>dl\<close> of the fields container has the text of its first \<^verbatim>\<open>dt\<close> and of its first
  \<^verbatim>\<open>dd\<close>, when present.  A page has, beside that, the \<^verbatim>\<open>href\<close> attribute of each of its
  \<^verbatim>\<open>a\<close> elements (\<open>None\<close> for an anchor without one) and its inline
  \<^verbatim>\<open>.sidearm-roster-player\<close> blocks.
\<close>

record name_element =
  own_text :: pystr
  span_texts :: "pystr list"

record dl_element =
  dt_text :: "pystr option"
  dd_text :: "pystr option"

record element =
  jersey_number :: "pystr option"
  player_name :: "name_element option"
  fields_dl :: "dl_element list"

record page =
  body :: element
  anchors :: "pystr option list"
  player_blocks :: "element list"

definition HEADERS :: "pystr list" where
  "HEADERS = map lit [''Number'', ''Player'', ''FirstName'', ''LastName'', ''Position'',
     ''Height'', ''Weight'', ''Class'', ''Hometown'', ''HighSchool'']"

definition ROSTER_URL :: pystr where
  "ROSTER_URL = lit ''https://hurstathletics.com/sports/mens-ice-hockey/roster''"

type_synonym data = "pystr \<rightharpoonup> pystr"

text \<open>\<^verbatim>\<open>{h: "" for h in HEADERS}\<close>\<close>

definition empty_data :: data where
  "empty_data = map_of (map (\<lambda>h. (h, [])) HEADERS)"

subsection \<open>scrape\_bios\_playwright.py\<close>

definition dl_playwright :: "dl_element \<Rightarrow> data \<Rightarrow> data" where
  "dl_playwright dl data =
     (case dt_text dl of
        None \<Rightarrow> data
      | Some dt \<Rightarrow>
         (case dd_text dl of
            None \<Rightarrow> data
          | Some dd \<Rightarrow>
             (let key = py_rstrip_char 58 (normalize_playwright dt);
                  val = normalize_playwright dd
              in if py_startswith (py_lower key) (lit ''position'') then data(lit ''Position'' \<mapsto> val)
                 else if py_startswith (py_lower key) (lit ''height'') then data(lit ''Height'' \<mapsto> val)
                 else if py_startswith (py_lower key) (lit ''weight'') then data(lit ''Weight'' \<mapsto> val)
                 else if py_startswith (py_lower key) (lit ''class'') then data(lit ''Class'' \<mapsto> val)
                 else if py_startswith (py_lower key) (lit ''hometown'') then data(lit ''Hometown'' \<mapsto> val)
                 else if py_startswith (py_lower key) (lit ''high school'')
                         \<or> py_startswith (py_lower key) (lit ''highschool'')
                      then data(lit ''HighSchool'' \<mapsto> val)
                 else data)))"

definition extract_from_profile_playwright :: "element \<Rightarrow> data" where
  "extract_from_profile_playwright pg =
     (let data = empty_data;
          data = (case jersey_number pg of
                    None \<Rightarrow> data
                  | Some num \<Rightarrow> data(lit ''Number'' \<mapsto> normalize_playwright num));
          data = (case player_name pg of
                    None \<Rightarrow> data
                  | Some name_el \<Rightarrow>
                      (let parts = map normalize_playwright (span_texts name_el);
                           full = py_strip (py_join [32] parts);
                           data = data(lit ''Player'' \<mapsto> full)
                       in if parts \<noteq> []
                          then data(lit ''FirstName'' \<mapsto> hd parts, lit ''LastName'' \<mapsto> last parts)
                          else data))
      in fold dl_playwright (fields_dl pg) data)"

text \<open>
  The anchors the selector \<^verbatim>\<open>a[href*="/sports/mens-ice-hockey/roster/"]\<close> matches, then
  the loop over them.
\<close>

fun links_playwright :: "pystr option list \<Rightarrow> pystr list \<Rightarrow> pystr list" where
  "links_playwright [] hrefs = hrefs"
| "links_playwright (a # as) hrefs =
     (case a of
        None \<Rightarrow> links_playwright as hrefs
      | Some href \<Rightarrow>
          if href = [] then links_playwright as hrefs
          else (let href = (if py_startswith href (lit ''/'')
                            then lit ''https://hurstathletics.com'' @ href else href)
                in links_playwright as (if href \<in> set hrefs then hrefs else hrefs @ [href])))"

definition gather_profile_links_playwright :: "pystr option list \<Rightarrow> pystr list" where
  "gather_profile_links_playwright as =
     links_playwright
       (filter (\<lambda>a. case a of None \<Rightarrow> False
                     | Some href \<Rightarrow> py_contains (lit ''/sports/mens-ice-hockey/roster/'') href) as)
       []"

subsection \<open>scrape\_bios\_requests.py\<close>

definition dl_requests :: "dl_element \<Rightarrow> data \<Rightarrow> data" where
  "dl_requests dl data =
     (case dt_text dl of
        None \<Rightarrow> data
      | Some dt \<Rightarrow>
         (case dd_text dl of
            None \<Rightarrow> data
          | Some dd \<Rightarrow>
             (let key = py_rstrip_char 58 (normalize_requests dt);
                  val = normalize_requests dd;
                  lk = py_lower key
              in if py_startswith lk (lit ''position'') then data(lit ''Position'' \<mapsto> val)
                 else if py_startswith lk (lit ''height'') then data(lit ''Height'' \<mapsto> val)
                 else if py_startswith lk (lit ''weight'') then data(lit ''Weight'' \<mapsto> val)
                 else if py_startswith lk (lit ''class'') then data(lit ''Class'' \<mapsto> val)
                 else if py_startswith lk (lit ''hometown'') then data(lit ''Hometown'' \<mapsto> val)
                 else if py_startswith lk (lit ''high school'') \<or> py_startswith lk (lit ''highschool'')
                      then data(lit ''HighSchool'' \<mapsto> val)
                 else data)))"

definition extract_from_profile_requests :: "element \<Rightarrow> data" where
  "extract_from_profile_requests soup =
     (let data = empty_data;
          data = (case jersey_number soup of
                    None \<Rightarrow> data
                  | Some num \<Rightarrow> data(lit ''Number'' \<mapsto> normalize_requests num));
          data = (case player_name soup of
                    None \<Rightarrow> data
                  | Some name_el \<Rightarrow>
                      (let parts = map normalize_requests (span_texts name_el);
                           full = (if parts = [] then normalize_requests (own_text name_el)
                                   else py_strip (py_join [32] parts));
                           parts = (if parts = [] then py_split full else parts);
                           data = data(lit ''Player'' \<mapsto> full)
                       in if parts \<noteq> []
                          then data(lit ''FirstName'' \<mapsto> hd parts, lit ''LastName'' \<mapsto> last parts)
                          else data))
      in fold dl_requests (fields_dl soup) data)"

fun links_requests :: "pystr list \<Rightarrow> pystr list \<Rightarrow> pystr list" where
  "links_requests [] hrefs = hrefs"
| "links_requests (href # as) hrefs =
     (if py_contains (lit ''/sports/mens-ice-hockey/roster/'') href
         \<and> href \<notin> set [lit ''/sports/mens-ice-hockey/roster'',
                          lit ''https://hurstathletics.com/sports/mens-ice-hockey/roster'']
      then (let href = (if py_startswith href (lit ''/'')
                        then lit ''https://hurstathletics.com'' @ href else href)
            in links_requests as (if href \<in> set hrefs then hrefs else hrefs @ [href]))
      else links_requests as hrefs)"

text \<open>\<^verbatim>\<open>soup.find_all("a", href=True)\<close> keeps the anchors that have the attribute.\<close>

definition gather_profile_links_requests :: "pystr option list \<Rightarrow> pystr list" where
  "gather_profile_links_requests as = links_requests (List.map_filter (\<lambda>a. a) as) []"

subsection \<open>The drivers\<close>

text \<open>
  \<^verbatim>\<open>[data[h] for h in HEADERS]\<close>; a missing key would raise \<^verbatim>\<open>KeyError\<close>, which is
  \<open>None\<close> here.
\<close>

definition row_of :: "data \<Rightarrow> pystr list option" where
  "row_of data = those (map data HEADERS)"

text \<open>
  An exception inside the loop is one of the browser or of the HTTP client (of a type
  \<open>'e\<close> that is left open) or one of Python.  The output is the list of the lines
  printed.
\<close>

datatype 'e failure = External 'e | Internal py_error

datatype 'e log_line =
    Opening pystr
  | Found nat
  | Visiting nat nat pystr
  | Failed pystr "'e failure"
  | NoProfiles
  | Wrote nat

text \<open>
  The loop of \<^verbatim>\<open>main\<close> in scrape\_bios\_requests.py over the links, numbered from \<open>i\<close>;
  \<open>n\<close> is the number of all links.  \<open>get_soup\<close> fetches and parses one page.
\<close>

fun profiles_requests ::
  "(pystr \<Rightarrow> 'e + page) \<Rightarrow> nat \<Rightarrow> nat \<Rightarrow> pystr list \<Rightarrow>
     pystr list list \<times> 'e log_line list \<Rightarrow> pystr list list \<times> 'e log_line list" where
  "profiles_requests get_soup n i [] st = st"
| "profiles_requests get_soup n i (url # urls) (rows, out) =
     (case get_soup url of
        Inl exc \<Rightarrow>
          profiles_requests get_soup n (Suc i) urls
            (rows, out @ [Visiting i n url, Failed url (External exc)])
      | Inr psoup \<Rightarrow>
          (case row_of (extract_from_profile_requests (body psoup)) of
             None \<Rightarrow>
               profiles_requests get_soup n (Suc i) urls
                 (rows, out @ [Visiting i n url, Failed url (Internal KeyError)])
           | Some r \<Rightarrow>
               profiles_requests get_soup n (Suc i) urls (rows @ [r], out @ [Visiting i n url])))"

text \<open>
  \<^verbatim>\<open>main\<close> of scrape\_bios\_requests.py: a failure to fetch the roster ends the run; the
  result is the content of the CSV file and the lines printed.
\<close>

definition main_requests ::
  "(pystr \<Rightarrow> 'e + page) \<Rightarrow> 'e + (pystr list list \<times> 'e log_line list)" where
  "main_requests get_soup =
     (case get_soup ROSTER_URL of
        Inl exc \<Rightarrow> Inl exc
      | Inr soup \<Rightarrow>
          (let profile_links = gather_profile_links_requests (anchors soup);
               out = [Opening ROSTER_URL, Found (length profile_links)];
               (rows, out) = profiles_requests get_soup (length profile_links) 1 profile_links ([], out);
               (rows, out) =
                  (if rows = []
                   then (List.map_filter (\<lambda>player_div. row_of (extract_from_profile_requests player_div))
                           (player_blocks soup),
                         out @ [NoProfiles])
                   else (rows, out))
           in Inr (HEADERS # rows, out @ [Wrote (length rows)])))"

text \<open>
  The loop of \<^verbatim>\<open>main\<close> in scrape\_bios\_playwright.py.  \<open>goto\<close> loads a page in the
  browser, \<open>wait_for_selector\<close> waits for an element of it and returns the exception
  of a timeout, if there is one.
\<close>

fun profiles_playwright ::
  "(pystr \<Rightarrow> 'e + page) \<Rightarrow> (page \<Rightarrow> pystr \<Rightarrow> 'e option) \<Rightarrow> nat \<Rightarrow> nat \<Rightarrow> pystr list \<Rightarrow>
     pystr list list \<times> 'e log_line list \<Rightarrow> pystr list list \<times> 'e log_line list" where
  "profiles_playwright goto wait_for_selector n i [] st = st"
| "profiles_playwright goto wait_for_selector n i (url # urls) (rows, out) =
     (case goto url of
        Inl exc \<Rightarrow>
          profiles_playwright goto wait_for_selector n (Suc i) urls
            (rows, out @ [Visiting i n url, Failed url (External exc)])
      | Inr pg \<Rightarrow>
          (case wait_for_selector pg (lit ''.sidearm-roster-player-header-details'') of
             Some exc \<Rightarrow>
               profiles_playwright goto wait_for_selector n (Suc i) urls
                 (rows, out @ [Visiting i n url, Failed url (External exc)])
           | None \<Rightarrow>
               (case row_of (extract_from_profile_playwright (body pg)) of
                  None \<Rightarrow>
                    profiles_playwright goto wait_for_selector n (Suc i) urls
                      (rows, out @ [Visiting i n url, Failed url (Internal KeyError)])
                | Some r \<Rightarrow>
                    profiles_playwright goto wait_for_selector n (Suc i) urls
                      (rows @ [r], out @ [Visiting i n url]))))"

definition main_playwright ::
  "(pystr \<Rightarrow> 'e + page) \<Rightarrow> (page \<Rightarrow> pystr \<Rightarrow> 'e option) \<Rightarrow>
     'e + (pystr list list \<times> 'e log_line list)" where
  "main_playwright goto wait_for_selector =
     (case goto ROSTER_URL of
        Inl exc \<Rightarrow> Inl exc
      | Inr pg \<Rightarrow>
          (case wait_for_selector pg (lit ''.sidearm-roster-player-name'') of
             Some exc \<Rightarrow> Inl exc
           | None \<Rightarrow>
               (let profile_links = gather_profile_links_playwright (anchors pg);
                    out = [Opening ROSTER_URL, Found (length profile_links)];
                    (rows, out) = profiles_playwright goto wait_for_selector
                                    (length profile_links) 1 profile_links ([], out)
                in Inr (HEADERS # rows, out @ [Wrote (length rows)]))))"

section \<open>Notions used in the statements\<close>

text \<open>The keys the loop over the fields container assigns.\<close>

definition dl_keys :: "pystr list" where
  "dl_keys = map lit [''Position'', ''Height'', ''Weight'', ''Class'', ''Hometown'', ''HighSchool'']"

text \<open>A document with a name element only, given by its text and its sub-element texts.\<close>

definition name_only :: "pystr \<Rightarrow> pystr list \<Rightarrow> element" where
  "name_only txt ts =
     \<lparr>jersey_number = None, player_name = Some \<lparr>own_text = txt, span_texts = ts\<rparr>, fields_dl = []\<rparr>"

text \<open>
  For the statement about link discovery: the test of the selector, the absolute form
  of a link, and a list cut down to the first occurrence of each of its elements.
\<close>

definition is_profile_href :: "pystr \<Rightarrow> bool" where
  "is_profile_href href \<longleftrightarrow> py_contains (lit ''/sports/mens-ice-hockey/roster/'') href"

definition absolute :: "pystr \<Rightarrow> pystr" where
  "absolute href =
     (if py_startswith href (lit ''/'') then lit ''https://hurstathletics.com'' @ href else href)"

fun first_occurrences :: "'a list \<Rightarrow> 'a list" where
  "first_occurrences [] = []"
| "first_occurrences (x # xs) = x # removeAll x (first_occurrences xs)"

text \<open>A roster page with relative and absolute forms of two profile links, both forms of the roster URL, an anchor without href and an unrelated link.\<close>

definition example_anchors :: "pystr option list" where
  "example_anchors =
     [Some (lit ''/sports/mens-ice-hockey/roster/jane-doe/1''),
      Some (lit ''/sports/mens-ice-hockey/roster''),
      None,
      Some (lit ''https://hurstathletics.com/sports/mens-ice-hockey/roster/john-roe/2''),
      Some (lit ''https://hurstathletics.com/sports/mens-ice-hockey/roster/jane-doe/1''),
      Some (lit ''/news''),
      Some (lit ''https://hurstathletics.com/sports/mens-ice-hockey/roster''),
      Some (lit ''/sports/mens-ice-hockey/roster/john-roe/2'')]"

text \<open>
  For the statements about the drivers: the URLs of the failure lines and of the
  progress lines of an output, whether processing a link raises, and the row a link
  gives.
\<close>

definition failed_urls :: "'e log_line list \<Rightarrow> pystr list" where
  "failed_urls out = List.map_filter (\<lambda>l. case l of Failed url exc \<Rightarrow> Some url | _ \<Rightarrow> None) out"

definition visited_urls :: "'e log_line list \<Rightarrow> pystr list" where
  "visited_urls out = List.map_filter (\<lambda>l. case l of Visiting i n url \<Rightarrow> Some url | _ \<Rightarrow> None) out"

definition fails_requests :: "(pystr \<Rightarrow> 'e + page) \<Rightarrow> pystr \<Rightarrow> bool" where
  "fails_requests get_soup url = (case get_soup url of Inl exc \<Rightarrow> True | Inr psoup \<Rightarrow> False)"

definition fails_playwright :: "(pystr \<Rightarrow> 'e + page) \<Rightarrow> (page \<Rightarrow> pystr \<Rightarrow> 'e option) \<Rightarrow> pystr \<Rightarrow> bool" where
  "fails_playwright goto wait_for_selector url =
     (case goto url of
        Inl exc \<Rightarrow> True
      | Inr pg \<Rightarrow> wait_for_selector pg (lit ''.sidearm-roster-player-header-details'') \<noteq> None)"

definition row_requests :: "(pystr \<Rightarrow> 'e + page) \<Rightarrow> pystr \<Rightarrow> pystr list option" where
  "row_requests get_soup url =
     (case get_soup url of
        Inl exc \<Rightarrow> None
      | Inr psoup \<Rightarrow> row_of (extract_from_profile_requests (body psoup)))"

definition row_playwright :: "(pystr \<Rightarrow> 'e + page) \<Rightarrow> (page \<Rightarrow> pystr \<Rightarrow> 'e option) \<Rightarrow> pystr \<Rightarrow> pystr list option" where
  "row_playwright goto wait_for_selector url =
     (case goto url of
        Inl exc \<Rightarrow> None
      | Inr pg \<Rightarrow>
          (case wait_for_selector pg (lit ''.sidearm-roster-player-header-details'') of
             Some exc \<Rightarrow> None
           | None \<Rightarrow> row_of (extract_from_profile_playwright (body pg))))"

text \<open>
  A site for the examples: a roster page with ten profile links, named by one code
  point each.  Over HTTP the third profile cannot be fetched; in the browser its page
  loads without the element that is waited for.
\<close>

definition profile_href :: "nat \<Rightarrow> pystr" where
  "profile_href c = lit ''/sports/mens-ice-hockey/roster/'' @ [c]"

definition profile_url :: "nat \<Rightarrow> pystr" where
  "profile_url c = lit ''https://hurstathletics.com/sports/mens-ice-hockey/roster/'' @ [c]"

definition example_roster :: page where
  "example_roster =
     \<lparr>body = \<lparr>jersey_number = None, player_name = None, fields_dl = []\<rparr>,
      anchors = map (\<lambda>c. Some (profile_href c)) [97, 98, 99, 100, 101, 102, 103, 104, 105, 106],
      player_blocks = []\<rparr>"

definition example_profile :: "nat \<Rightarrow> page" where
  "example_profile c =
     \<lparr>body = \<lparr>jersey_number = Some [c], player_name = None, fields_dl = []\<rparr>,
      anchors = [], player_blocks = []\<rparr>"

definition blank_page :: page where
  "blank_page =
     \<lparr>body = \<lparr>jersey_number = None, player_name = None, fields_dl = []\<rparr>,
      anchors = [], player_blocks = []\<rparr>"

definition example_get_soup :: "pystr \<Rightarrow> string + page" where
  "example_get_soup url =
     (if url = ROSTER_URL then Inr example_roster
      else if url = profile_url 99 then Inl ''404 Client Error''
      else Inr (example_profile (last url)))"

definition example_goto :: "pystr \<Rightarrow> string + page" where
  "example_goto url =
     (if url = ROSTER_URL then Inr example_roster
      else if url = profile_url 99 then Inr blank_page
      else Inr (example_profile (last url)))"

definition example_wait_for_selector :: "page \<Rightarrow> pystr \<Rightarrow> string option" where
  "example_wait_for_selector pg selector = (if pg = blank_page then Some ''Timeout 30000ms exceeded'' else None)"

text \<open>
  For the statements about the coercer: the text of a cell (the empty string for a
  cell that is \<^verbatim>\<open>None\<close>), and a cell that is a string or \<^verbatim>\<open>None\<close>.
\<close>

definition cell_text :: "cell \<Rightarrow> pystr" where
  "cell_text c = (case c of CStr s \<Rightarrow> s | _ \<Rightarrow> [])"

definition is_text :: "cell \<Rightarrow> bool" where
  "is_text c = (case c of CList xs \<Rightarrow> False | _ \<Rightarrow> True)"

text \<open>
  A bio file for the examples: the header lacks the last five columns, and the line
  is one cell short.
\<close>

definition example_bio_header :: "pystr list" where
  "example_bio_header = map lit [''Number'', ''Player'', ''FirstName'', ''LastName'', ''Position'']"

definition example_bio_line :: "pystr list" where
  "example_bio_line = map lit ['' 7'', '' Jane Doe '', ''Jane '', '' Doe'']"

text \<open>
  For the statements about the stats pass: what the loop stores for a column that is
  kept under its own name, and what one column with a string or \<^verbatim>\<open>None\<close> cell does to
  the keyword dictionary.
\<close>

definition convert :: "pystr \<Rightarrow> cell \<Rightarrow> field" where
  "convert k c =
     (if k \<in> set int_fields then IntField (coerce_int c)
      else if k = lit ''SH_PCT'' then coerce_float c
      else StrField (py_strip (cell_text c)))"

definition effect :: "pystr option \<times> cell \<Rightarrow> kwargs \<Rightarrow> kwargs" where
  "effect item kw =
     (case fst item of
        None \<Rightarrow> kw
      | Some k \<Rightarrow>
          if k \<in> set [lit ''Number'', lit ''FirstName'', lit ''LastName''] then kw
          else if k = lit ''PN-PIM'' then kw(Some (lit ''PN_PIM'') \<mapsto> StrField (py_strip (cell_text (snd item))))
          else kw(Some k \<mapsto> convert k (snd item)))"

definition stats_field :: "py_error + Stats \<Rightarrow> pystr \<Rightarrow> field option" where
  "stats_field res k = (case res of Inl e \<Rightarrow> None | Inr st \<Rightarrow> st k)"

text \<open>The keyword dictionary before the loop over the columns.\<close>

definition direct_fields :: "csv_row \<Rightarrow> kwargs" where
  "direct_fields row =
     [Some (lit ''Number'') \<mapsto> IntField (coerce_int (row_get row (lit ''Number'') (CStr []))),
      Some (lit ''FirstName'') \<mapsto> StrField (py_strip (cell_text (row_get row (lit ''FirstName'') CNone))),
      Some (lit ''LastName'') \<mapsto> StrField (py_strip (cell_text (row_get row (lit ''LastName'') CNone)))]"

text \<open>
  Stats files for the examples: a line with an empty Number, an unparsable GP and no
  cell for G, and the same header with a line of six cells; a line with a \<^verbatim>\<open>PN-PIM\<close>
  cell; a header with both \<^verbatim>\<open>PN-PIM\<close> and \<^verbatim>\<open>PN_PIM\<close>; a header with a column outside
  the schema; and a file whose only line is longer than its header.
\<close>

definition example_stats_header :: "pystr list" where
  "example_stats_header = map lit [''Number'', ''FirstName'', ''LastName'', ''GP'', ''G'']"

definition example_stats_line :: "pystr list" where
  "example_stats_line = map lit ['''', ''Jane'', ''Doe'', ''n/a'']"

definition long_stats_line :: "pystr list" where
  "long_stats_line = map lit ['''', ''Jane'', ''Doe'', ''3'', ''1'', ''extra'']"





definition partial_header :: "pystr list" where
  "partial_header = map lit [''FirstName'', ''LastName'', ''Team'']"

definition partial_line :: "pystr list" where
  "partial_line = map lit [''Jane'', ''Doe'', '' Lakers '']"

definition long_line_file :: "pystr list list" where
  "long_line_file = [map lit [''FirstName'', ''LastName'', ''GP''], map lit [''Jane'', ''Doe'', ''3'', ''extra'']]"

text \<open>
  Files for the examples of a load: a header with the two key columns, one line, and
  an empty database.
\<close>

definition key_header :: "pystr list" where
  "key_header = map lit [''FirstName'', ''LastName'']"

definition jane_doe_line :: "pystr list" where
  "jane_doe_line = map lit [''Jane'', ''Doe'']"

definition empty_db :: hurst_db where
  "empty_db = \<lparr>bio_table = [], stats_table = []\<rparr>"

text \<open>
  A file with three lines of which the first and the last have the same key.
\<close>

definition john_roe_line :: "pystr list" where
  "john_roe_line = map lit [''John'', ''Roe'']"

definition colliding_file :: "pystr list list" where
  "colliding_file = [key_header, jane_doe_line, john_roe_line, jane_doe_line]"

text \<open>A bio file whose Number is one more than the largest integer of SQLite.\<close>

definition large_number_file :: "pystr list list" where
  "large_number_file =
     [map lit [''Number'', ''FirstName'', ''LastName''],
      map lit [''9223372036854775808'', ''Jane'', ''Doe'']]"

text \<open>
  For the statements about a load: the tables with a batch added, and a batch every
  record of which the engine accepts when it is inserted after the records before it.
\<close>

definition with_bios :: "hurst_db \<Rightarrow> Bio list \<Rightarrow> hurst_db" where
  "with_bios d bios = d\<lparr>bio_table := bio_table d @ bios\<rparr>"

definition with_stats :: "hurst_db \<Rightarrow> Stats list \<Rightarrow> hurst_db" where
  "with_stats d rows = d\<lparr>stats_table := stats_table d @ rows\<rparr>"

definition bios_accepted :: "engine \<Rightarrow> hurst_db \<Rightarrow> Bio list \<Rightarrow> bool" where
  "bios_accepted e d bios \<longleftrightarrow>
     (\<forall>i < length bios. refuses_bio e (with_bios d (take i bios)) (bios ! i) = None)"

definition stats_accepted :: "engine \<Rightarrow> hurst_db \<Rightarrow> Stats list \<Rightarrow> bool" where
  "stats_accepted e d rows \<longleftrightarrow>
     (\<forall>i < length rows. refuses_stats e (with_stats d (take i rows)) (rows ! i) = None)"

text \<open>
  A roster page on which one profile is linked twice, by a path relative to the page
  and by its URL.
\<close>

definition relative_anchors :: "pystr option list" where
  "relative_anchors =
     [Some (lit ''../../sports/mens-ice-hockey/roster/jane-doe/1''),
      Some (lit ''https://hurstathletics.com/sports/mens-ice-hockey/roster/jane-doe/1'')]"

section \<open>Properties of the string functions\<close>

lemma isspace_32: "py_isspace 32" and isspace_160: "py_isspace 160"
  by (simp_all add: py_isspace_def)

lemma split_from_replace:
  "split_from cur (py_replace_char 160 32 s) = split_from cur s"
proof (induction s arbitrary: cur)
  case Nil
  show ?case by (simp add: py_replace_char_def)
next
  case (Cons c cs)
  have IH: "\<And>cur. split_from cur (map (\<lambda>c. if c = 160 then 32 else c) cs) = split_from cur cs"
    using Cons.IH by (simp add: py_replace_char_def)
  show ?case
  proof (cases "c = 160")
    case True
    then show ?thesis by (simp add: py_replace_char_def IH isspace_32 isspace_160)
  next
    case False
    then show ?thesis by (simp add: py_replace_char_def IH)
  qed
qed

lemma split_from_words:
  "list_all (\<lambda>c. \<not> py_isspace c) cur \<Longrightarrow> list_all is_word (split_from cur s)"
  by (induction s arbitrary: cur) (auto simp: is_word_def)

lemma split_words: "list_all is_word (py_split s)"
  by (simp add: py_split_def split_from_words)

lemma strip_id:
  "s = [] \<or> (\<not> py_isspace (hd s) \<and> \<not> py_isspace (last s)) \<Longrightarrow> py_strip s = s"
proof (cases s)
  case Nil
  then show ?thesis by (simp add: py_strip_def)
next
  case (Cons a t)
  assume "s = [] \<or> (\<not> py_isspace (hd s) \<and> \<not> py_isspace (last s))"
  with Cons have h: "\<not> py_isspace a" and l: "\<not> py_isspace (last s)" by auto
  from h Cons have 1: "dropWhile py_isspace s = s" by simp
  have "hd (rev s) = last s" using Cons by (simp add: hd_rev)
  then have 2: "dropWhile py_isspace (rev s) = rev s" using l by (simp add: dropWhile_eq_self_iff)
  show ?thesis by (simp add: py_strip_def 1 2)
qed

lemma join_words_ends:
  "ws \<noteq> [] \<Longrightarrow> list_all is_word ws \<Longrightarrow>
     py_join [32] ws \<noteq> [] \<and> hd (py_join [32] ws) = hd (hd ws) \<and> last (py_join [32] ws) = last (last ws)"
  by (induction "[32::nat]" ws rule: py_join.induct) (auto simp: is_word_def)

lemma word_ends: "is_word w \<Longrightarrow> \<not> py_isspace (hd w) \<and> \<not> py_isspace (last w)"
  by (cases w) (auto simp: is_word_def list_all_iff)

lemma strip_join_words:
  "list_all is_word ws \<Longrightarrow> py_strip (py_join [32] ws) = py_join [32] ws"
proof (cases "ws = []")
  case True
  then show ?thesis by (simp add: py_strip_def)
next
  case False
  assume w: "list_all is_word ws"
  from False w have "is_word (hd ws)" "is_word (last ws)" by (auto simp: list_all_iff)
  with join_words_ends[OF False w] word_ends show ?thesis by (intro strip_id) auto
qed

lemma split_from_word_append:
  "list_all (\<lambda>c. \<not> py_isspace c) w \<Longrightarrow> split_from cur (w @ rest) = split_from (cur @ w) rest"
  by (induction w arbitrary: cur) auto

lemma split_from_word:
  "is_word w \<Longrightarrow> split_from [] (w @ rest) = split_from w rest"
  using split_from_word_append[of w "[]" rest] by (simp add: is_word_def)

lemma split_join_words:
  "list_all is_word ws \<Longrightarrow> split_from [] (py_join [32] ws) = ws"
proof (induction "[32::nat]" ws rule: py_join.induct)
  case 1
  show ?case by simp
next
  case (2 x)
  then have "is_word x" by simp
  then show ?case using split_from_word[of x "[]"] by (simp add: is_word_def)
next
  case (3 x y ys)
  then have x: "is_word x" and r: "list_all is_word (y # ys)" by simp_all
  have "split_from [] (x @ 32 # py_join [32] (y # ys)) = split_from x (32 # py_join [32] (y # ys))"
    using split_from_word[OF x] by simp
  also have "\<dots> = x # split_from [] (py_join [32] (y # ys))"
    using x by (simp add: is_word_def isspace_32)
  finally show ?case using 3(1)[OF r] by simp
qed

lemma set_join: "set (py_join [32] ws) \<subseteq> insert 32 (\<Union> (set ` set ws))"
  by (induction "[32::nat]" ws rule: py_join.induct) auto

lemma join_words_ws_is_space:
  "list_all is_word ws \<Longrightarrow> c \<in> set (py_join [32] ws) \<Longrightarrow> py_isspace c \<Longrightarrow> c = 32"
  using set_join[of ws] by (auto simp: is_word_def list_all_iff)

lemma has_ws_run_word_append:
  "list_all (\<lambda>c. \<not> py_isspace c) x \<Longrightarrow> has_ws_run (x @ t) = has_ws_run t"
proof (induction x)
  case Nil
  show ?case by simp
next
  case (Cons a x)
  then have a: "\<not> py_isspace a" and IH: "has_ws_run (x @ t) = has_ws_run t" by simp_all
  show ?case using a IH by (cases "x @ t") auto
qed

lemma has_ws_run_space:
  "t \<noteq> [] \<Longrightarrow> \<not> py_isspace (hd t) \<Longrightarrow> has_ws_run (c # t) = has_ws_run t"
  by (cases t) auto

lemma no_run_join_words:
  "list_all is_word ws \<Longrightarrow> \<not> has_ws_run (py_join [32] ws)"
proof (induction "[32::nat]" ws rule: py_join.induct)
  case 1
  show ?case by simp
next
  case (2 x)
  then show ?case using has_ws_run_word_append[of x "[]"] by (simp add: is_word_def)
next
  case (3 x y ys)
  then have x: "is_word x" and r: "list_all is_word (y # ys)" by simp_all
  have e: "py_join [32] (y # ys) \<noteq> [] \<and> \<not> py_isspace (hd (py_join [32] (y # ys)))"
    using join_words_ends[of "y # ys"] r word_ends[of y] by simp
  have "has_ws_run (x @ 32 # py_join [32] (y # ys)) = has_ws_run (32 # py_join [32] (y # ys))"
    using x has_ws_run_word_append by (simp add: is_word_def)
  also have "\<dots> = has_ws_run (py_join [32] (y # ys))"
    using e by (rule_tac has_ws_run_space) auto
  finally show ?case using 3(1)[OF r] by simp
qed

lemma normalize_playwright_join_split:
  "normalize_playwright s = py_join [32] (py_split s)"
  by (simp add: normalize_playwright_def py_split_def split_from_replace
        strip_join_words split_words[unfolded py_split_def])

lemma normalize_requests_playwright:
  "normalize_requests s = normalize_playwright s"
  by (simp add: normalize_requests_def normalize_playwright_def py_split_def py_replace_char_def py_strip_def)

lemma split_normalize_playwright:
  "py_split (normalize_playwright s) = py_split s"
  using split_join_words[OF split_words[of s]]
  by (simp add: normalize_playwright_join_split py_split_def)

lemma normalize_playwright_ends:
  "normalize_playwright s \<noteq> [] \<Longrightarrow>
     \<not> py_isspace (hd (normalize_playwright s)) \<and> \<not> py_isspace (last (normalize_playwright s))"
proof -
  assume ne: "normalize_playwright s \<noteq> []"
  then have ws: "py_split s \<noteq> []" by (auto simp: normalize_playwright_join_split)
  have w: "list_all is_word (py_split s)" by (rule split_words)
  from ws w have "is_word (hd (py_split s))" "is_word (last (py_split s))"
    by (auto simp: list_all_iff)
  with join_words_ends[OF ws w] word_ends show ?thesis
    by (simp add: normalize_playwright_join_split)
qed

section \<open>The field normalizer is total and collapses whitespace\<close>

text \<open>
  C9.  For every input string both normalizers return the same string: the words of
  the input (its maximal runs of non-whitespace code points, the non-breaking space
  counting as whitespace) joined by single ordinary spaces.  The result has the same
  words as the input, every whitespace code point in it is the ordinary space, no two
  whitespace code points are adjacent, and it neither starts nor ends with whitespace.
  The functions are total: there is a result for every string.
\<close>

theorem normalize_collapses_whitespace:
  "normalize_requests s = normalize_playwright s
   \<and> normalize_playwright s = py_join [32] (py_split s)
   \<and> list_all is_word (py_split s)
   \<and> py_split (normalize_playwright s) = py_split s
   \<and> (\<forall>c \<in> set (normalize_playwright s). py_isspace c \<longrightarrow> c = 32)
   \<and> \<not> has_ws_run (normalize_playwright s)
   \<and> py_strip (normalize_playwright s) = normalize_playwright s
   \<and> (normalize_playwright s \<noteq> [] \<longrightarrow>
        \<not> py_isspace (hd (normalize_playwright s)) \<and> \<not> py_isspace (last (normalize_playwright s)))"
proof -
  have w: "list_all is_word (py_split s)" by (rule split_words)
  have j: "normalize_playwright s = py_join [32] (py_split s)"
    by (rule normalize_playwright_join_split)
  have a: "\<forall>c \<in> set (normalize_playwright s). py_isspace c \<longrightarrow> c = 32"
    using join_words_ws_is_space[OF w] by (simp add: j)
  have r: "\<not> has_ws_run (normalize_playwright s)"
    using no_run_join_words[OF w] by (simp add: j)
  have t: "py_strip (normalize_playwright s) = normalize_playwright s"
    using strip_join_words[OF w] by (simp add: j)
  show ?thesis
    using normalize_requests_playwright[of s] j w split_normalize_playwright[of s] a r t
      normalize_playwright_ends[of s]
    by blast
qed

theorem normalize_collapses_whitespace_witness:
  "normalize_requests ([160, 32] @ lit ''Jane   Q'' @ [9, 8195] @ lit ''Doe  '') = lit ''Jane Q Doe''
   \<and> normalize_playwright ([160, 32] @ lit ''Jane   Q'' @ [9, 8195] @ lit ''Doe  '') = lit ''Jane Q Doe''
   \<and> py_split (lit ''Jane Q Doe'') = [lit ''Jane'', lit ''Q'', lit ''Doe'']
   \<and> \<not> has_ws_run (lit ''Jane Q Doe'')
   \<and> py_strip (lit ''Jane Q Doe'') = lit ''Jane Q Doe''"
proof -
  let ?s = "[160, 32] @ lit ''Jane   Q'' @ [9, 8195] @ lit ''Doe  ''"
  have sp: "py_split ?s = [lit ''Jane'', lit ''Q'', lit ''Doe'']"
    by (simp add: lit_def py_split_def py_isspace_def)
  note t = normalize_collapses_whitespace [of ?s]
  from t have "normalize_playwright ?s = py_join [32] (py_split ?s)" by blast
  then have p: "normalize_playwright ?s = lit ''Jane Q Doe''"
    by (simp only: sp) (simp add: lit_def)
  from t have r: "normalize_requests ?s = normalize_playwright ?s" by blast
  from t have "py_split (normalize_playwright ?s) = py_split ?s" by blast
  then have s2: "py_split (lit ''Jane Q Doe'') = [lit ''Jane'', lit ''Q'', lit ''Doe'']"
    by (simp only: p sp)
  from t have "\<not> has_ws_run (normalize_playwright ?s)" by blast
  with p have h: "\<not> has_ws_run (lit ''Jane Q Doe'')" by metis
  from t have "py_strip (normalize_playwright ?s) = normalize_playwright ?s" by blast
  then have st: "py_strip (lit ''Jane Q Doe'') = lit ''Jane Q Doe''" by (simp only: p)
  show ?thesis using r p s2 h st by metis
qed

section \<open>The profile extractors\<close>

lemma dl_playwright_other:
  "k \<notin> set dl_keys \<Longrightarrow> dl_playwright dl data k = data k"
  by (auto simp: dl_playwright_def dl_keys_def Let_def split: option.splits)

lemma dl_requests_other:
  "k \<notin> set dl_keys \<Longrightarrow> dl_requests dl data k = data k"
  by (auto simp: dl_requests_def dl_keys_def Let_def split: option.splits)

lemma fold_dl_playwright_other:
  "k \<notin> set dl_keys \<Longrightarrow> fold dl_playwright dls data k = data k"
  by (induction dls arbitrary: data) (simp_all add: dl_playwright_other)

lemma fold_dl_requests_other:
  "k \<notin> set dl_keys \<Longrightarrow> fold dl_requests dls data k = data k"
  by (induction dls arbitrary: data) (simp_all add: dl_requests_other)

lemma name_keys_not_dl:
  "lit ''Player'' \<notin> set dl_keys" "lit ''FirstName'' \<notin> set dl_keys" "lit ''LastName'' \<notin> set dl_keys"
  "lit ''Number'' \<notin> set dl_keys"
  by (simp_all add: dl_keys_def lit_def)

lemma name_keys_distinct:
  "lit ''Player'' \<noteq> lit ''FirstName''" "lit ''Player'' \<noteq> lit ''LastName''"
  "lit ''FirstName'' \<noteq> lit ''LastName''" "lit ''FirstName'' \<noteq> lit ''Player''"
  "lit ''LastName'' \<noteq> lit ''Player''" "lit ''LastName'' \<noteq> lit ''FirstName''"
  by (simp_all add: lit_def)

lemma playwright_name:
  assumes "player_name pg = Some el" "span_texts el \<noteq> []"
  shows "extract_from_profile_playwright pg (lit ''Player'')
           = Some (py_strip (py_join [32] (map normalize_playwright (span_texts el))))"
    and "extract_from_profile_playwright pg (lit ''FirstName'')
           = Some (hd (map normalize_playwright (span_texts el)))"
    and "extract_from_profile_playwright pg (lit ''LastName'')
           = Some (last (map normalize_playwright (span_texts el)))"
  using assms
  by (simp_all add: extract_from_profile_playwright_def Let_def fold_dl_playwright_other
        name_keys_not_dl name_keys_distinct)

lemma requests_name:
  assumes "player_name pg = Some el" "span_texts el \<noteq> []"
  shows "extract_from_profile_requests pg (lit ''Player'')
           = Some (py_strip (py_join [32] (map normalize_requests (span_texts el))))"
    and "extract_from_profile_requests pg (lit ''FirstName'')
           = Some (hd (map normalize_requests (span_texts el)))"
    and "extract_from_profile_requests pg (lit ''LastName'')
           = Some (last (map normalize_requests (span_texts el)))"
  using assms
  by (simp_all add: extract_from_profile_requests_def Let_def fold_dl_requests_other
        name_keys_not_dl name_keys_distinct)

lemma join_hd:
  "ps \<noteq> [] \<Longrightarrow> hd ps \<noteq> [] \<Longrightarrow>
     py_join [32] ps \<noteq> [] \<and> hd (py_join [32] ps) = hd (hd ps)"
  by (induction "[32::nat]" ps rule: py_join.induct) auto

lemma join_last:
  "ps \<noteq> [] \<Longrightarrow> last ps \<noteq> [] \<Longrightarrow>
     py_join [32] ps \<noteq> [] \<and> last (py_join [32] ps) = last (last ps)"
  by (induction "[32::nat]" ps rule: py_join.induct) auto

lemma strip_join_parts:
  assumes "ts \<noteq> []" "hd (map normalize_playwright ts) \<noteq> []" "last (map normalize_playwright ts) \<noteq> []"
  shows "py_strip (py_join [32] (map normalize_playwright ts)) = py_join [32] (map normalize_playwright ts)"
proof -
  let ?ps = "map normalize_playwright ts"
  from assms(1) have ne: "?ps \<noteq> []" by simp
  have h: "hd ?ps = normalize_playwright (hd ts)" using assms(1) by (simp add: hd_map)
  have l: "last ?ps = normalize_playwright (last ts)" using assms(1) by (simp add: last_map)
  from join_hd[OF ne assms(2)] join_last[OF ne assms(3)]
  have "py_join [32] ?ps \<noteq> []" "hd (py_join [32] ?ps) = hd (hd ?ps)"
       "last (py_join [32] ?ps) = last (last ?ps)" by simp_all
  moreover have "\<not> py_isspace (hd (hd ?ps))"
    using normalize_playwright_ends[of "hd ts"] assms(2) h by simp
  moreover have "\<not> py_isspace (last (last ?ps))"
    using normalize_playwright_ends[of "last ts"] assms(3) l by simp
  ultimately show ?thesis by (intro strip_id) simp
qed

lemma map_normalize_requests: "map normalize_requests ts = map normalize_playwright ts"
  by (simp add: normalize_requests_playwright)

lemma dl_requests_playwright: "dl_requests = dl_playwright"
  by (intro ext) (simp add: dl_requests_def dl_playwright_def normalize_requests_playwright Let_def split: option.splits)

lemma extractors_agree_with_spans:
  "(\<And>el. player_name pg = Some el \<Longrightarrow> span_texts el \<noteq> []) \<Longrightarrow>
     extract_from_profile_requests pg = extract_from_profile_playwright pg"
  by (cases "player_name pg")
     (simp_all add: extract_from_profile_requests_def extract_from_profile_playwright_def
        dl_requests_playwright normalize_requests_playwright Let_def map_normalize_requests
        split: option.splits)

lemma normalize_eval:
  "normalize_playwright (lit '' Jane '') = lit ''Jane''"
  "normalize_playwright (lit ''Doe'' @ [160]) = lit ''Doe''"
  "normalize_playwright (lit ''Q'') = lit ''Q''"
  "normalize_playwright (lit ''Jane Doe'') = lit ''Jane Doe''"
  "normalize_playwright (lit ''Doe'') = lit ''Doe''"
  "normalize_playwright [] = []"
  by (simp_all add: normalize_playwright_def lit_def py_split_def py_strip_def
        py_replace_char_def py_isspace_def)

section \<open>Name extraction\<close>

text \<open>
  C7, as the code has it.  For every name element with at least one sub-element, in
  both scrapers: the parts are the normalized texts of the sub-elements; Player is the
  parts joined with single spaces and then stripped of leading and trailing whitespace,
  which is the plain join whenever the first and the last part are not empty; FirstName
  is the first part and LastName is the last part.  So the parts Jane, Doe give Player
  "Jane Doe", FirstName "Jane" and LastName "Doe"; of the parts Jane, Q, Doe the middle
  one does not enter the key; and a single part is both FirstName and LastName.
\<close>

theorem name_parts:
  assumes "player_name pg = Some el" and "span_texts el \<noteq> []"
    and "parts = map normalize_playwright (span_texts el)"
  shows "map normalize_requests (span_texts el) = parts
     \<and> extract_from_profile_playwright pg (lit ''Player'') = Some (py_strip (py_join [32] parts))
     \<and> extract_from_profile_playwright pg (lit ''FirstName'') = Some (hd parts)
     \<and> extract_from_profile_playwright pg (lit ''LastName'') = Some (last parts)
     \<and> extract_from_profile_requests pg (lit ''Player'') = Some (py_strip (py_join [32] parts))
     \<and> extract_from_profile_requests pg (lit ''FirstName'') = Some (hd parts)
     \<and> extract_from_profile_requests pg (lit ''LastName'') = Some (last parts)
     \<and> (hd parts \<noteq> [] \<and> last parts \<noteq> [] \<longrightarrow> py_strip (py_join [32] parts) = py_join [32] parts)"
  using assms playwright_name[OF assms(1,2)] requests_name[OF assms(1,2)]
    strip_join_parts[of "span_texts el"]
  by (simp add: map_normalize_requests)

theorem name_parts_witness:
  "extract_from_profile_playwright (name_only [] [lit '' Jane '', lit ''Doe'' @ [160]]) (lit ''Player'') = Some (lit ''Jane Doe'')
   \<and> extract_from_profile_playwright (name_only [] [lit '' Jane '', lit ''Doe'' @ [160]]) (lit ''FirstName'') = Some (lit ''Jane'')
   \<and> extract_from_profile_playwright (name_only [] [lit '' Jane '', lit ''Doe'' @ [160]]) (lit ''LastName'') = Some (lit ''Doe'')
   \<and> extract_from_profile_requests (name_only [] [lit '' Jane '', lit ''Doe'' @ [160]]) (lit ''Player'') = Some (lit ''Jane Doe'')
   \<and> extract_from_profile_requests (name_only [] [lit '' Jane '', lit ''Doe'' @ [160]]) (lit ''FirstName'') = Some (lit ''Jane'')
   \<and> extract_from_profile_requests (name_only [] [lit '' Jane '', lit ''Doe'' @ [160]]) (lit ''LastName'') = Some (lit ''Doe'')
   \<and> extract_from_profile_playwright (name_only [] [lit '' Jane '', lit ''Q'', lit ''Doe'']) (lit ''FirstName'') = Some (lit ''Jane'')
   \<and> extract_from_profile_playwright (name_only [] [lit '' Jane '', lit ''Q'', lit ''Doe'']) (lit ''LastName'') = Some (lit ''Doe'')
   \<and> extract_from_profile_requests (name_only [] [lit '' Jane '', lit ''Q'', lit ''Doe'']) (lit ''FirstName'') = Some (lit ''Jane'')
   \<and> extract_from_profile_requests (name_only [] [lit '' Jane '', lit ''Q'', lit ''Doe'']) (lit ''LastName'') = Some (lit ''Doe'')
   \<and> extract_from_profile_playwright (name_only [] [lit ''Doe'']) (lit ''FirstName'') = Some (lit ''Doe'')
   \<and> extract_from_profile_playwright (name_only [] [lit ''Doe'']) (lit ''LastName'') = Some (lit ''Doe'')
   \<and> extract_from_profile_requests (name_only [] [lit ''Doe'']) (lit ''FirstName'') = Some (lit ''Doe'')
   \<and> extract_from_profile_requests (name_only [] [lit ''Doe'']) (lit ''LastName'') = Some (lit ''Doe'')"
proof -
  have j: "py_join [32] [lit ''Jane'', lit ''Doe''] = lit ''Jane Doe''" by (simp add: lit_def)
  have ne: "lit ''Jane'' \<noteq> []" "lit ''Doe'' \<noteq> []" by (simp_all add: lit_def)
  have a: "player_name (name_only [] ts) = Some \<lparr>own_text = [], span_texts = ts\<rparr>" for ts
    by (simp add: name_only_def)
  have 2: "[lit ''Jane'', lit ''Doe''] = map normalize_playwright (span_texts \<lparr>own_text = [], span_texts = [lit '' Jane '', lit ''Doe'' @ [160]]\<rparr>)"
    by (simp add: normalize_eval)
  have 3: "[lit ''Jane'', lit ''Q'', lit ''Doe''] = map normalize_playwright (span_texts \<lparr>own_text = [], span_texts = [lit '' Jane '', lit ''Q'', lit ''Doe'']\<rparr>)"
    by (simp add: normalize_eval)
  have 1: "[lit ''Doe''] = map normalize_playwright (span_texts \<lparr>own_text = [], span_texts = [lit ''Doe'']\<rparr>)"
    by (simp add: normalize_eval)
  show ?thesis
    using name_parts[OF a _ 2] name_parts[OF a _ 3] name_parts[OF a _ 1]
    by (simp add: lit_def py_strip_def py_isspace_def)
qed

text \<open>
  C7 as stated fails when the first sub-element has no text: the parts are the empty
  string and "Doe", their join with a space is " Doe", and Player is "Doe".
\<close>

theorem player_is_not_the_plain_join:
  "extract_from_profile_playwright (name_only [] [[], lit ''Doe'']) (lit ''Player'')
     \<noteq> Some (py_join [32] (map normalize_playwright [[], lit ''Doe'']))"
proof -
  have a: "player_name (name_only [] [[], lit ''Doe'']) = Some \<lparr>own_text = [], span_texts = [[], lit ''Doe'']\<rparr>"
    by (simp add: name_only_def)
  have "py_strip (32 # lit ''Doe'') = lit ''Doe''"
    by (simp add: py_strip_def lit_def py_isspace_def)
  then show ?thesis using playwright_name(1)[OF a]
    by (simp add: normalize_eval)
qed

section \<open>The two extractors compared\<close>

text \<open>
  C10.  The two extractors do not realize the same function: for a name element
  without sub-elements whose text is "Jane Doe", the requests scraper takes the name
  from the text of the element (Player "Jane Doe", FirstName "Jane", LastName "Doe")
  and the Playwright scraper leaves all three fields empty.  On documents whose name
  element has sub-elements they agree (\<open>extractors_agree_with_spans\<close>).
\<close>

theorem extractors_differ_without_spans:
  "extract_from_profile_playwright (name_only (lit ''Jane Doe'') []) (lit ''Player'') = Some []
   \<and> extract_from_profile_playwright (name_only (lit ''Jane Doe'') []) (lit ''FirstName'') = Some []
   \<and> extract_from_profile_playwright (name_only (lit ''Jane Doe'') []) (lit ''LastName'') = Some []
   \<and> extract_from_profile_requests (name_only (lit ''Jane Doe'') []) (lit ''Player'') = Some (lit ''Jane Doe'')
   \<and> extract_from_profile_requests (name_only (lit ''Jane Doe'') []) (lit ''FirstName'') = Some (lit ''Jane'')
   \<and> extract_from_profile_requests (name_only (lit ''Jane Doe'') []) (lit ''LastName'') = Some (lit ''Doe'')
   \<and> extract_from_profile_requests (name_only (lit ''Jane Doe'') []) \<noteq> extract_from_profile_playwright (name_only (lit ''Jane Doe'') [])"
proof -
  have e: "empty_data (lit ''FirstName'') = Some []" "empty_data (lit ''LastName'') = Some []"
    by (simp_all add: empty_data_def HEADERS_def lit_def)
  have sp: "py_split (lit ''Jane Doe'') = [lit ''Jane'', lit ''Doe'']"
    by (simp add: py_split_def lit_def py_isspace_def)
  have st: "py_strip [] = []" by (simp add: py_strip_def)
  have p: "extract_from_profile_playwright (name_only (lit ''Jane Doe'') []) (lit ''Player'') = Some []"
    "extract_from_profile_playwright (name_only (lit ''Jane Doe'') []) (lit ''FirstName'') = Some []"
    "extract_from_profile_playwright (name_only (lit ''Jane Doe'') []) (lit ''LastName'') = Some []"
    by (simp_all add: extract_from_profile_playwright_def name_only_def Let_def st e name_keys_distinct)
  have ne: "lit ''Jane Doe'' \<noteq> []" by (simp add: lit_def)
  have r: "extract_from_profile_requests (name_only (lit ''Jane Doe'') []) (lit ''Player'') = Some (lit ''Jane Doe'')"
    "extract_from_profile_requests (name_only (lit ''Jane Doe'') []) (lit ''FirstName'') = Some (lit ''Jane'')"
    "extract_from_profile_requests (name_only (lit ''Jane Doe'') []) (lit ''LastName'') = Some (lit ''Doe'')"
    by (simp_all add: extract_from_profile_requests_def name_only_def Let_def
          normalize_requests_playwright normalize_eval sp name_keys_distinct)
  from p(1) r(1) ne have "extract_from_profile_requests (name_only (lit ''Jane Doe'') []) \<noteq> extract_from_profile_playwright (name_only (lit ''Jane Doe'') [])"
    by (metis option.inject)
  with p r show ?thesis by simp
qed

section \<open>Link discovery\<close>

lemma removeAll_as_filter: "removeAll x ys = filter (\<lambda>y. y \<noteq> x) ys"
  by (induction ys) auto

lemma first_occurrences_filter:
  "first_occurrences (filter P xs) = filter P (first_occurrences xs)"
proof (induction xs)
  case Nil
  show ?case by simp
next
  case (Cons x xs)
  show ?case
  proof (cases "P x")
    case True
    then show ?thesis using Cons by (simp add: removeAll_as_filter) (metis filter_cong)
  next
    case False
    have "filter P (filter (\<lambda>y. y \<noteq> x) (first_occurrences xs)) = filter P (first_occurrences xs)"
      using False by (auto intro: filter_cong)
    with False Cons show ?thesis by (simp add: removeAll_as_filter)
  qed
qed

lemma set_first_occurrences: "set (first_occurrences xs) = set xs"
  by (induction xs) auto

lemma distinct_first_occurrences: "distinct (first_occurrences xs)"
  by (induction xs) (auto simp: distinct_removeAll)

lemma first_occurrences_distinct: "distinct xs \<Longrightarrow> first_occurrences xs = xs"
  by (induction xs) (auto simp: set_first_occurrences)

lemma contains_append_left:
  "py_contains sub s \<Longrightarrow> py_contains sub (p @ s)"
  by (induction p) auto

lemma roster_not_profile:
  "\<not> is_profile_href ROSTER_URL"
  "\<not> is_profile_href (lit ''/sports/mens-ice-hockey/roster'')"
  "\<not> is_profile_href (lit ''https://hurstathletics.com/sports/mens-ice-hockey/roster'')"
  "\<not> is_profile_href []"
  by (simp_all add: is_profile_href_def ROSTER_URL_def lit_def py_startswith_def)

lemma is_profile_absolute: "is_profile_href h \<Longrightarrow> is_profile_href (absolute h)"
  by (simp add: is_profile_href_def absolute_def contains_append_left)

lemma absolute_no_slash: "\<not> py_startswith (absolute h) (lit ''/'')"
  by (simp add: absolute_def py_startswith_def lit_def)

lemma links_requests_eq:
  "distinct hrefs \<Longrightarrow>
     links_requests hs hrefs =
       hrefs @ first_occurrences (filter (\<lambda>u. u \<notin> set hrefs) (map absolute (filter is_profile_href hs)))"
proof (induction hs arbitrary: hrefs)
  case Nil
  show ?case by simp
next
  case (Cons h hs)
  show ?case
  proof (cases "is_profile_href h")
    case False
    then show ?thesis using Cons by (simp add: is_profile_href_def)
  next
    case True
    then have nb: "h \<noteq> lit ''/sports/mens-ice-hockey/roster''"
      "h \<noteq> lit ''https://hurstathletics.com/sports/mens-ice-hockey/roster''"
      using roster_not_profile by auto
    let ?u = "absolute h"
    let ?rest = "map absolute (filter is_profile_href hs)"
    have step: "links_requests (h # hs) hrefs
                  = links_requests hs (if ?u \<in> set hrefs then hrefs else hrefs @ [?u])"
      using True nb by (simp add: is_profile_href_def absolute_def Let_def)
    show ?thesis
    proof (cases "?u \<in> set hrefs")
      case in_acc: True
      then show ?thesis using step True Cons.IH[OF Cons.prems] by simp
    next
      case new: False
      then have d: "distinct (hrefs @ [?u])" using Cons.prems by simp
      have "filter (\<lambda>u. u \<notin> set (hrefs @ [?u])) ?rest
              = filter (\<lambda>y. y \<noteq> ?u) (filter (\<lambda>u. u \<notin> set hrefs) ?rest)"
        by (auto intro: filter_cong)
      then have "first_occurrences (filter (\<lambda>u. u \<notin> set (hrefs @ [?u])) ?rest)
              = removeAll ?u (first_occurrences (filter (\<lambda>u. u \<notin> set hrefs) ?rest))"
        by (simp only: first_occurrences_filter removeAll_as_filter)
      then show ?thesis using step new True Cons.IH[OF d] by simp
    qed
  qed
qed

lemma links_playwright_eq:
  "distinct hrefs \<Longrightarrow> list_all is_profile_href hs \<Longrightarrow>
     links_playwright (map Some hs) hrefs =
       hrefs @ first_occurrences (filter (\<lambda>u. u \<notin> set hrefs) (map absolute hs))"
proof (induction hs arbitrary: hrefs)
  case Nil
  show ?case by simp
next
  case (Cons h hs)
  then have p: "is_profile_href h" and ps: "list_all is_profile_href hs" by simp_all
  from p have ne: "h \<noteq> []" using roster_not_profile(4) by auto
  let ?u = "absolute h"
  let ?rest = "map absolute hs"
  have step: "links_playwright (map Some (h # hs)) hrefs
                = links_playwright (map Some hs) (if ?u \<in> set hrefs then hrefs else hrefs @ [?u])"
    using ne by (simp add: absolute_def Let_def)
  show ?case
  proof (cases "?u \<in> set hrefs")
    case True
    then show ?thesis using step Cons.IH[OF Cons.prems(1) ps] by simp
  next
    case False
    then have d: "distinct (hrefs @ [?u])" using Cons.prems by simp
    have "filter (\<lambda>u. u \<notin> set (hrefs @ [?u])) ?rest
            = filter (\<lambda>y. y \<noteq> ?u) (filter (\<lambda>u. u \<notin> set hrefs) ?rest)"
      by (auto intro: filter_cong)
    then have "first_occurrences (filter (\<lambda>u. u \<notin> set (hrefs @ [?u])) ?rest)
            = removeAll ?u (first_occurrences (filter (\<lambda>u. u \<notin> set hrefs) ?rest))"
      by (simp only: first_occurrences_filter removeAll_as_filter)
    then show ?thesis using step False Cons.IH[OF d ps] by simp
  qed
qed

lemma selector_filter:
  "filter (\<lambda>a. case a of None \<Rightarrow> False | Some href \<Rightarrow> py_contains (lit ''/sports/mens-ice-hockey/roster/'') href) as
     = map Some (filter is_profile_href (List.map_filter (\<lambda>a. a) as))"
  by (induction as) (auto simp: List.map_filter_simps is_profile_href_def split: option.splits)

lemma gather_requests_eq:
  "gather_profile_links_requests as
     = first_occurrences (map absolute (filter is_profile_href (List.map_filter (\<lambda>a. a) as)))"
  using links_requests_eq[of "[]" "List.map_filter (\<lambda>a. a) as"]
  by (simp add: gather_profile_links_requests_def)

lemma gather_playwright_eq:
  "gather_profile_links_playwright as
     = first_occurrences (map absolute (filter is_profile_href (List.map_filter (\<lambda>a. a) as)))"
  using links_playwright_eq[of "[]" "filter is_profile_href (List.map_filter (\<lambda>a. a) as)"]
  by (simp add: gather_profile_links_playwright_def selector_filter list_all_iff)

text \<open>
  C8, as the code has it.  For every roster document, given by the \<^verbatim>\<open>href\<close>
  attributes of its anchors in document order, both link discoverers return the same
  list: the hrefs that contain the profile path, those starting with "/" prefixed with
  the site origin and every other one as it is written, cut down to the first
  occurrence of each resulting string.  So every string of the result occurs once, an
  href starting with "/" and the URL it is prefixed to give one entry at the place of
  the first, no entry starts with "/", and the roster URL itself is not in the result.
\<close>

theorem link_discovery:
  "gather_profile_links_requests as
     = first_occurrences (map absolute (filter is_profile_href (List.map_filter (\<lambda>a. a) as)))
   \<and> gather_profile_links_playwright as = gather_profile_links_requests as
   \<and> distinct (gather_profile_links_requests as)
   \<and> set (gather_profile_links_requests as) = absolute ` {h. Some h \<in> set as \<and> is_profile_href h}
   \<and> ROSTER_URL \<notin> set (gather_profile_links_requests as)
   \<and> (\<forall>u \<in> set (gather_profile_links_requests as). \<not> py_startswith u (lit ''/''))"
proof -
  let ?hs = "List.map_filter (\<lambda>a. a) as"
  have hs: "set ?hs = {h. Some h \<in> set as}"
    by (induction as) (auto simp: List.map_filter_simps split: option.splits)
  have s: "set (gather_profile_links_requests as) = absolute ` {h. Some h \<in> set as \<and> is_profile_href h}"
    using hs by (auto simp: gather_requests_eq set_first_occurrences)
  have r: "ROSTER_URL \<notin> set (gather_profile_links_requests as)"
  proof
    assume "ROSTER_URL \<in> set (gather_profile_links_requests as)"
    then obtain h where "is_profile_href h" "ROSTER_URL = absolute h" by (auto simp: s)
    then show False using is_profile_absolute[of h] roster_not_profile(1) by simp
  qed
  have a: "\<forall>u \<in> set (gather_profile_links_requests as). \<not> py_startswith u (lit ''/'')"
    using absolute_no_slash by (auto simp: s)
  show ?thesis
    using gather_requests_eq[of as] gather_playwright_eq[of as] s r a
    by (simp add: distinct_first_occurrences)
qed

theorem link_discovery_witness:
  "gather_profile_links_requests example_anchors
     = [lit ''https://hurstathletics.com/sports/mens-ice-hockey/roster/jane-doe/1'',
        lit ''https://hurstathletics.com/sports/mens-ice-hockey/roster/john-roe/2'']
   \<and> gather_profile_links_playwright example_anchors
     = [lit ''https://hurstathletics.com/sports/mens-ice-hockey/roster/jane-doe/1'',
        lit ''https://hurstathletics.com/sports/mens-ice-hockey/roster/john-roe/2'']"
proof -
  have e: "gather_profile_links_requests example_anchors
     = [lit ''https://hurstathletics.com/sports/mens-ice-hockey/roster/jane-doe/1'',
        lit ''https://hurstathletics.com/sports/mens-ice-hockey/roster/john-roe/2'']"
    by (simp add: gather_profile_links_requests_def example_anchors_def List.map_filter_simps
          lit_def py_startswith_def)
  from link_discovery[of example_anchors]
  have "gather_profile_links_playwright example_anchors = gather_profile_links_requests example_anchors"
    by blast
  with e show ?thesis by simp
qed

text \<open>
  C8 as stated fails for an href that is relative without starting with "/": it is
  returned as written, which is not an absolute URL, and beside the URL it resolves to
  on the roster page, so that one profile is listed twice.
\<close>

theorem relative_link_is_kept_as_written:
  "gather_profile_links_requests relative_anchors
     = [lit ''../../sports/mens-ice-hockey/roster/jane-doe/1'',
        lit ''https://hurstathletics.com/sports/mens-ice-hockey/roster/jane-doe/1'']
   \<and> gather_profile_links_playwright relative_anchors
     = [lit ''../../sports/mens-ice-hockey/roster/jane-doe/1'',
        lit ''https://hurstathletics.com/sports/mens-ice-hockey/roster/jane-doe/1'']"
  by (simp add: gather_profile_links_requests_def gather_profile_links_playwright_def
        relative_anchors_def List.map_filter_simps lit_def py_startswith_def)

section \<open>Properties of the drivers\<close>

lemma those_map_Some:
  "(\<And>x. x \<in> set xs \<Longrightarrow> f x \<noteq> None) \<Longrightarrow> those (map f xs) \<noteq> None"
  by (induction xs) (auto split: option.splits)

lemma dom_empty_data: "h \<in> set HEADERS \<Longrightarrow> h \<in> dom empty_data"
  by (auto simp: empty_data_def dom_map_of_conv_image_fst image_iff)

lemma dl_playwright_dom: "h \<in> dom data \<Longrightarrow> h \<in> dom (dl_playwright dl data)"
  by (auto simp: dl_playwright_def Let_def split: option.splits)

lemma dl_requests_dom: "h \<in> dom data \<Longrightarrow> h \<in> dom (dl_requests dl data)"
  by (auto simp: dl_requests_def Let_def split: option.splits)

lemma fold_dl_playwright_dom: "h \<in> dom data \<Longrightarrow> h \<in> dom (fold dl_playwright dls data)"
proof (induction dls arbitrary: data)
  case Nil
  then show ?case by simp
next
  case (Cons dl dls)
  from Cons.IH[OF dl_playwright_dom[OF Cons.prems]] show ?case by simp
qed

lemma fold_dl_requests_dom: "h \<in> dom data \<Longrightarrow> h \<in> dom (fold dl_requests dls data)"
proof (induction dls arbitrary: data)
  case Nil
  then show ?case by simp
next
  case (Cons dl dls)
  from Cons.IH[OF dl_requests_dom[OF Cons.prems]] show ?case by simp
qed

lemma extract_playwright_dom:
  assumes "h \<in> set HEADERS"
  shows "extract_from_profile_playwright pg h \<noteq> None"
proof -
  have "h \<in> dom (extract_from_profile_playwright pg)"
    unfolding extract_from_profile_playwright_def Let_def
    using dom_empty_data[OF assms]
    by (intro fold_dl_playwright_dom) (auto split: option.splits)
  then show ?thesis by auto
qed

lemma extract_requests_dom:
  assumes "h \<in> set HEADERS"
  shows "extract_from_profile_requests pg h \<noteq> None"
proof -
  have "h \<in> dom (extract_from_profile_requests pg)"
    unfolding extract_from_profile_requests_def Let_def
    using dom_empty_data[OF assms]
    by (intro fold_dl_requests_dom) (auto split: option.splits)
  then show ?thesis by auto
qed

lemma row_of_playwright: "row_of (extract_from_profile_playwright pg) \<noteq> None"
  unfolding row_of_def by (rule those_map_Some) (rule extract_playwright_dom)

lemma row_of_requests: "row_of (extract_from_profile_requests pg) \<noteq> None"
  unfolding row_of_def by (rule those_map_Some) (rule extract_requests_dom)

lemma row_requests_None: "row_requests get_soup url = None \<longleftrightarrow> fails_requests get_soup url"
  using row_of_requests by (auto simp: row_requests_def fails_requests_def split: sum.splits)

lemma row_playwright_None:
  "row_playwright goto wait url = None \<longleftrightarrow> fails_playwright goto wait url"
  using row_of_playwright
  by (auto simp: row_playwright_def fails_playwright_def split: sum.splits option.splits)

lemma failed_urls_append: "failed_urls (a @ b) = failed_urls a @ failed_urls b"
  by (simp add: failed_urls_def List.map_filter_def)

lemma visited_urls_append: "visited_urls (a @ b) = visited_urls a @ visited_urls b"
  by (simp add: visited_urls_def List.map_filter_def)

lemma profiles_requests_result:
  "fst (profiles_requests get_soup n i urls (rows, out)) = rows @ List.map_filter (row_requests get_soup) urls
   \<and> failed_urls (snd (profiles_requests get_soup n i urls (rows, out)))
        = failed_urls out @ filter (fails_requests get_soup) urls
   \<and> visited_urls (snd (profiles_requests get_soup n i urls (rows, out))) = visited_urls out @ urls"
proof (induction urls arbitrary: rows out i)
  case Nil
  show ?case by (simp add: List.map_filter_simps)
next
  case (Cons url urls)
  show ?case
  proof (cases "get_soup url")
    case (Inl exc)
    then show ?thesis using Cons[where rows=rows and out="out @ [Visiting i n url, Failed url (External exc)]" and i="Suc i"]
      by (simp add: List.map_filter_simps row_requests_def fails_requests_def
            failed_urls_append visited_urls_append)
         (simp add: failed_urls_def visited_urls_def List.map_filter_simps)
  next
    case (Inr psoup)
    obtain r where r: "row_of (extract_from_profile_requests (body psoup)) = Some r"
      using row_of_requests[of "body psoup"] by auto
    show ?thesis using Inr r Cons[where rows="rows @ [r]" and out="out @ [Visiting i n url]" and i="Suc i"]
      by (simp add: List.map_filter_simps row_requests_def fails_requests_def
            failed_urls_append visited_urls_append)
         (simp add: failed_urls_def visited_urls_def List.map_filter_simps)
  qed
qed

lemma profiles_playwright_result:
  "fst (profiles_playwright goto wait n i urls (rows, out))
      = rows @ List.map_filter (row_playwright goto wait) urls
   \<and> failed_urls (snd (profiles_playwright goto wait n i urls (rows, out)))
        = failed_urls out @ filter (fails_playwright goto wait) urls
   \<and> visited_urls (snd (profiles_playwright goto wait n i urls (rows, out))) = visited_urls out @ urls"
proof (induction urls arbitrary: rows out i)
  case Nil
  show ?case by (simp add: List.map_filter_simps)
next
  case (Cons url urls)
  show ?case
  proof (cases "goto url")
    case (Inl exc)
    then show ?thesis using Cons[where rows=rows and out="out @ [Visiting i n url, Failed url (External exc)]" and i="Suc i"]
      by (simp add: List.map_filter_simps row_playwright_def fails_playwright_def
            failed_urls_append visited_urls_append)
         (simp add: failed_urls_def visited_urls_def List.map_filter_simps)
  next
    case (Inr pg)
    show ?thesis
    proof (cases "wait pg (lit ''.sidearm-roster-player-header-details'')")
      case (Some exc)
      then show ?thesis
        using Inr Cons[where rows=rows and out="out @ [Visiting i n url, Failed url (External exc)]" and i="Suc i"]
        by (simp add: List.map_filter_simps row_playwright_def fails_playwright_def
              failed_urls_append visited_urls_append)
           (simp add: failed_urls_def visited_urls_def List.map_filter_simps)
    next
      case None
      obtain r where r: "row_of (extract_from_profile_playwright (body pg)) = Some r"
        using row_of_playwright[of "body pg"] by auto
      show ?thesis using Inr None r Cons[where rows="rows @ [r]" and out="out @ [Visiting i n url]" and i="Suc i"]
        by (simp add: List.map_filter_simps row_playwright_def fails_playwright_def
              failed_urls_append visited_urls_append)
           (simp add: failed_urls_def visited_urls_def List.map_filter_simps)
    qed
  qed
qed

lemma length_map_filter:
  "length (List.map_filter f xs) = length (filter (\<lambda>x. f x \<noteq> None) xs)"
  by (induction xs) (auto simp: List.map_filter_simps split: option.splits)

lemma filter_fails_count:
  "length (filter (\<lambda>x. \<not> P x) xs) = length xs - length (filter P xs)"
  using sum_length_filter_compl[of P xs] by simp

lemma urls_of_other_lines:
  "failed_urls [NoProfiles] = []" "failed_urls [Wrote k] = []"
  "visited_urls [NoProfiles] = []" "visited_urls [Wrote k] = []"
  "failed_urls [NoProfiles, Wrote k] = []" "visited_urls [NoProfiles, Wrote k] = []"
  by (simp_all add: failed_urls_def visited_urls_def List.map_filter_simps)

lemma requests_run:
  assumes "get_soup ROSTER_URL = Inr soup"
    and "links = gather_profile_links_requests (anchors soup)"
  shows "\<exists>rows out. main_requests get_soup = Inr (HEADERS # rows, out)
           \<and> visited_urls out = links
           \<and> failed_urls out = filter (fails_requests get_soup) links
           \<and> (filter (\<lambda>u. \<not> fails_requests get_soup u) links \<noteq> [] \<longrightarrow>
                rows = List.map_filter (row_requests get_soup) links
                \<and> length rows = length links - length (filter (fails_requests get_soup) links))"
proof -
  let ?res = "profiles_requests get_soup (length links) 1 links
                ([], [Opening ROSTER_URL, Found (length links)])"
  let ?R = "List.map_filter (row_requests get_soup) links"
  note r = profiles_requests_result[of get_soup "length links" 1 links "[]"
             "[Opening ROSTER_URL, Found (length links)]"]
  have f: "fst ?res = ?R" using r by simp
  have fl: "failed_urls (snd ?res) = filter (fails_requests get_soup) links"
    using r by (simp add: failed_urls_def List.map_filter_simps)
  have vs: "visited_urls (snd ?res) = links"
    using r by (simp add: visited_urls_def List.map_filter_simps)
  have len: "length ?R = length links - length (filter (fails_requests get_soup) links)"
    by (simp add: length_map_filter row_requests_None filter_fails_count)
  have ne: "?R = [] \<Longrightarrow> filter (\<lambda>u. \<not> fails_requests get_soup u) links = []"
    using length_map_filter[of "row_requests get_soup" links]
    by (simp add: row_requests_None)
  show ?thesis
  proof (cases "?R = []")
    case True
    show ?thesis
      using assms f fl vs ne[OF True] True
      by (simp add: main_requests_def Let_def case_prod_beta failed_urls_append
            visited_urls_append urls_of_other_lines)
  next
    case False
    show ?thesis
      using assms f fl vs len False
      by (simp add: main_requests_def Let_def case_prod_beta failed_urls_append
            visited_urls_append urls_of_other_lines)
  qed
qed

lemma playwright_run:
  assumes "goto ROSTER_URL = Inr pg" and "wait pg (lit ''.sidearm-roster-player-name'') = None"
    and "links = gather_profile_links_playwright (anchors pg)"
  shows "\<exists>rows out. main_playwright goto wait = Inr (HEADERS # rows, out)
           \<and> visited_urls out = links
           \<and> failed_urls out = filter (fails_playwright goto wait) links
           \<and> rows = List.map_filter (row_playwright goto wait) links
           \<and> length rows = length links - length (filter (fails_playwright goto wait) links)"
proof -
  let ?res = "profiles_playwright goto wait (length links) 1 links
                ([], [Opening ROSTER_URL, Found (length links)])"
  let ?R = "List.map_filter (row_playwright goto wait) links"
  note r = profiles_playwright_result[of goto wait "length links" 1 links "[]"
             "[Opening ROSTER_URL, Found (length links)]"]
  have f: "fst ?res = ?R" using r by simp
  have fl: "failed_urls (snd ?res) = filter (fails_playwright goto wait) links"
    using r by (simp add: failed_urls_def List.map_filter_simps)
  have vs: "visited_urls (snd ?res) = links"
    using r by (simp add: visited_urls_def List.map_filter_simps)
  have len: "length ?R = length links - length (filter (fails_playwright goto wait) links)"
    by (simp add: length_map_filter row_playwright_None filter_fails_count)
  show ?thesis
    using assms f fl vs len
    by (simp add: main_playwright_def Let_def case_prod_beta failed_urls_append visited_urls_append urls_of_other_lines)
qed

text \<open>
  C6.  In both drivers, once the roster page is loaded: every discovered link is
  visited, in order; the failure lines of the output are exactly the links whose
  processing raised, in order, each with its URL; the run ends normally and writes
  the header and the rows.  When at least one link succeeds the rows are those of the
  links that did not fail (the requests driver reads the roster page itself when no
  profile gave a row), so ten links of which exactly one fails give nine rows and one
  failure line.
\<close>

theorem one_bad_profile_never_aborts:
  "(get_soup ROSTER_URL = Inr soup \<and> links = gather_profile_links_requests (anchors soup) \<longrightarrow>
      (\<exists>rows out. main_requests get_soup = Inr (HEADERS # rows, out)
         \<and> visited_urls out = links
         \<and> failed_urls out = filter (fails_requests get_soup) links
         \<and> (filter (\<lambda>u. \<not> fails_requests get_soup u) links \<noteq> [] \<longrightarrow>
              rows = List.map_filter (row_requests get_soup) links
              \<and> length rows = length links - length (filter (fails_requests get_soup) links))
         \<and> (length links = 10 \<and> length (filter (fails_requests get_soup) links) = 1 \<longrightarrow>
              length rows = 9 \<and> length (failed_urls out) = 1)))
   \<and> (goto ROSTER_URL = Inr pg \<and> wait pg (lit ''.sidearm-roster-player-name'') = None
        \<and> plinks = gather_profile_links_playwright (anchors pg) \<longrightarrow>
      (\<exists>rows out. main_playwright goto wait = Inr (HEADERS # rows, out)
         \<and> visited_urls out = plinks
         \<and> failed_urls out = filter (fails_playwright goto wait) plinks
         \<and> rows = List.map_filter (row_playwright goto wait) plinks
         \<and> length rows = length plinks - length (filter (fails_playwright goto wait) plinks)
         \<and> (length plinks = 10 \<and> length (filter (fails_playwright goto wait) plinks) = 1 \<longrightarrow>
              length rows = 9 \<and> length (failed_urls out) = 1)))"
proof (intro conjI impI)
  assume a: "get_soup ROSTER_URL = Inr soup \<and> links = gather_profile_links_requests (anchors soup)"
  then obtain rows out where r: "main_requests get_soup = Inr (HEADERS # rows, out)"
      "visited_urls out = links" "failed_urls out = filter (fails_requests get_soup) links"
      "filter (\<lambda>u. \<not> fails_requests get_soup u) links \<noteq> [] \<longrightarrow>
         rows = List.map_filter (row_requests get_soup) links
         \<and> length rows = length links - length (filter (fails_requests get_soup) links)"
    using requests_run[of get_soup soup links] by blast
  have "length rows = 9 \<and> length (failed_urls out) = 1"
    if t: "length links = 10 \<and> length (filter (fails_requests get_soup) links) = 1"
  proof -
    have "length (filter (\<lambda>u. \<not> fails_requests get_soup u) links) = 9"
      using t by (simp add: filter_fails_count)
    then have "filter (\<lambda>u. \<not> fails_requests get_soup u) links \<noteq> []" by auto
    with r(4) have "length rows = length links - length (filter (fails_requests get_soup) links)"
      by blast
    with t r(3) show ?thesis by simp
  qed
  with r show "\<exists>rows out. main_requests get_soup = Inr (HEADERS # rows, out)
         \<and> visited_urls out = links
         \<and> failed_urls out = filter (fails_requests get_soup) links
         \<and> (filter (\<lambda>u. \<not> fails_requests get_soup u) links \<noteq> [] \<longrightarrow>
              rows = List.map_filter (row_requests get_soup) links
              \<and> length rows = length links - length (filter (fails_requests get_soup) links))
         \<and> (length links = 10 \<and> length (filter (fails_requests get_soup) links) = 1 \<longrightarrow>
              length rows = 9 \<and> length (failed_urls out) = 1)"
    by blast
next
  assume a: "goto ROSTER_URL = Inr pg \<and> wait pg (lit ''.sidearm-roster-player-name'') = None
        \<and> plinks = gather_profile_links_playwright (anchors pg)"
  then obtain rows out where r: "main_playwright goto wait = Inr (HEADERS # rows, out)"
      "visited_urls out = plinks" "failed_urls out = filter (fails_playwright goto wait) plinks"
      "rows = List.map_filter (row_playwright goto wait) plinks"
      "length rows = length plinks - length (filter (fails_playwright goto wait) plinks)"
    using playwright_run[of goto pg wait plinks] by blast
  have "length rows = 9 \<and> length (failed_urls out) = 1"
    if t: "length plinks = 10 \<and> length (filter (fails_playwright goto wait) plinks) = 1"
    using r(3,5) t by simp
  with r show "\<exists>rows out. main_playwright goto wait = Inr (HEADERS # rows, out)
         \<and> visited_urls out = plinks
         \<and> failed_urls out = filter (fails_playwright goto wait) plinks
         \<and> rows = List.map_filter (row_playwright goto wait) plinks
         \<and> length rows = length plinks - length (filter (fails_playwright goto wait) plinks)
         \<and> (length plinks = 10 \<and> length (filter (fails_playwright goto wait) plinks) = 1 \<longrightarrow>
              length rows = 9 \<and> length (failed_urls out) = 1)"
    by blast
qed

lemma map_filter_Some: "List.map_filter (\<lambda>a. a) (map (\<lambda>c. Some (f c)) cs) = map f cs"
  by (induction cs) (simp_all add: List.map_filter_simps)

lemma starts_contains: "py_startswith s sub \<Longrightarrow> py_contains sub s"
  by (cases s) (auto simp: py_startswith_def)

lemma profile_href_is_profile: "is_profile_href (profile_href c)"
  unfolding is_profile_href_def profile_href_def
  by (rule starts_contains) (simp add: py_startswith_def)

lemma absolute_profile_href: "absolute (profile_href c) = profile_url c"
  by (simp add: absolute_def profile_href_def profile_url_def py_startswith_def lit_def)

lemma profile_url_eq: "profile_url c = profile_url d \<longleftrightarrow> c = d"
  by (simp add: profile_url_def)

lemma profile_url_not_roster: "profile_url c \<noteq> ROSTER_URL"
proof
  assume "profile_url c = ROSTER_URL"
  then have "length (profile_url c) = length ROSTER_URL" by simp
  then show False by (simp add: profile_url_def ROSTER_URL_def lit_def)
qed

lemma example_links:
  "gather_profile_links_requests (anchors example_roster)
     = map profile_url [97, 98, 99, 100, 101, 102, 103, 104, 105, 106]"
  "gather_profile_links_playwright (anchors example_roster)
     = map profile_url [97, 98, 99, 100, 101, 102, 103, 104, 105, 106]"
proof -
  let ?cs = "[97, 98, 99, 100, 101, 102, 103, 104, 105, 106] :: nat list"
  have hs: "List.map_filter (\<lambda>a. a) (anchors example_roster) = map profile_href ?cs"
    unfolding example_roster_def using map_filter_Some[of profile_href ?cs] by simp
  have fl: "filter is_profile_href (map profile_href ?cs) = map profile_href ?cs"
    by (simp add: profile_href_is_profile)
  have ab: "map absolute (map profile_href ?cs) = map profile_url ?cs"
    by (simp add: absolute_profile_href)
  have "distinct (map profile_url ?cs)"
    by (simp add: distinct_map inj_on_def profile_url_eq)
  then have fo: "first_occurrences (map profile_url ?cs) = map profile_url ?cs"
    by (rule first_occurrences_distinct)
  show "gather_profile_links_requests (anchors example_roster) = map profile_url ?cs"
    by (simp only: gather_requests_eq hs fl ab fo)
  show "gather_profile_links_playwright (anchors example_roster) = map profile_url ?cs"
    by (simp only: gather_playwright_eq hs fl ab fo)
qed

lemma example_fails:
  "fails_requests example_get_soup (profile_url c) \<longleftrightarrow> c = 99"
  "fails_playwright example_goto example_wait_for_selector (profile_url c) \<longleftrightarrow> c = 99"
  by (simp_all add: fails_requests_def fails_playwright_def example_get_soup_def example_goto_def
        example_wait_for_selector_def profile_url_not_roster profile_url_eq
        example_profile_def blank_page_def)

theorem one_bad_profile_never_aborts_witness:
  "(\<exists>rows out. main_requests example_get_soup = Inr (HEADERS # rows, out)
       \<and> length rows = 9 \<and> failed_urls out = [profile_url 99])
   \<and> (\<exists>rows out. main_playwright example_goto example_wait_for_selector = Inr (HEADERS # rows, out)
       \<and> length rows = 9 \<and> failed_urls out = [profile_url 99])"
proof -
  let ?links = "map profile_url [97, 98, 99, 100, 101, 102, 103, 104, 105, 106]"
  have g: "example_get_soup ROSTER_URL = Inr example_roster \<and>
           ?links = gather_profile_links_requests (anchors example_roster)"
    by (simp add: example_get_soup_def example_links)
  have p: "example_goto ROSTER_URL = Inr example_roster \<and>
           example_wait_for_selector example_roster (lit ''.sidearm-roster-player-name'') = None \<and>
           ?links = gather_profile_links_playwright (anchors example_roster)"
  proof -
    have "example_wait_for_selector example_roster (lit ''.sidearm-roster-player-name'') = None"
      by (simp add: example_wait_for_selector_def example_roster_def blank_page_def)
    then show ?thesis by (simp add: example_goto_def example_links)
  qed
  have f1: "filter (fails_requests example_get_soup) ?links = [profile_url 99]"
    by (simp add: example_fails)
  have f2: "filter (fails_playwright example_goto example_wait_for_selector) ?links = [profile_url 99]"
    by (simp add: example_fails)
  have n: "length ?links = 10" by simp
  note t = one_bad_profile_never_aborts[of example_get_soup example_roster ?links
             example_goto example_roster example_wait_for_selector ?links]
  from t g f1 n have 1: "\<exists>rows out. main_requests example_get_soup = Inr (HEADERS # rows, out)
       \<and> length rows = 9 \<and> failed_urls out = [profile_url 99]"
    by (metis One_nat_def length_Cons list.size(3))
  from t p f2 n have 2: "\<exists>rows out. main_playwright example_goto example_wait_for_selector = Inr (HEADERS # rows, out)
       \<and> length rows = 9 \<and> failed_urls out = [profile_url 99]"
    by (metis One_nat_def length_Cons list.size(3))
  from 1 2 show ?thesis by blast
qed

section \<open>Properties of the row dictionaries\<close>

lemma strip_empty: "py_strip [] = []"
  by (simp add: py_strip_def)

lemma strip_decomposition:
  "\<exists>pre post. s = pre @ py_strip s @ post \<and> list_all py_isspace pre \<and> list_all py_isspace post"
proof -
  let ?a = "dropWhile py_isspace s"
  have 1: "s = takeWhile py_isspace s @ ?a" by simp
  have "rev ?a = takeWhile py_isspace (rev ?a) @ dropWhile py_isspace (rev ?a)" by simp
  then have "?a = rev (dropWhile py_isspace (rev ?a)) @ rev (takeWhile py_isspace (rev ?a))"
    by (metis rev_append rev_rev_ident)
  then have 2: "?a = py_strip s @ rev (takeWhile py_isspace (rev ?a))"
    by (simp add: py_strip_def)
  have 3: "list_all py_isspace (takeWhile py_isspace s)"
    by (auto simp: list_all_iff dest: set_takeWhileD)
  have 4: "list_all py_isspace (rev (takeWhile py_isspace (rev ?a)))"
    by (auto simp: list_all_iff dest: set_takeWhileD)
  from 1 2 have "s = takeWhile py_isspace s @ py_strip s @ rev (takeWhile py_isspace (rev ?a))"
    by metis
  with 3 4 show ?thesis by blast
qed

lemma strip_ends:
  "py_strip s \<noteq> [] \<Longrightarrow> \<not> py_isspace (hd (py_strip s)) \<and> \<not> py_isspace (last (py_strip s))"
proof -
  assume ne: "py_strip s \<noteq> []"
  let ?a = "dropWhile py_isspace s"
  let ?b = "dropWhile py_isspace (rev ?a)"
  from ne have b: "?b \<noteq> []" by (simp add: py_strip_def)
  then have hb: "\<not> py_isspace (hd ?b)" by (rule hd_dropWhile)
  have l: "last (py_strip s) = hd ?b" using b by (simp add: py_strip_def last_rev)
  from b have "rev ?a \<noteq> []" by (metis dropWhile.simps(1))
  then have a: "?a \<noteq> []" by simp
  then have ha: "\<not> py_isspace (hd ?a)" by (rule hd_dropWhile)
  have "last ?b = last (rev ?a)" using b
    by (metis append_Nil2 last_appendR takeWhile_dropWhile_id)
  then have "hd (py_strip s) = hd ?a" using a b by (simp add: py_strip_def hd_rev last_rev)
  with ha hb l show ?thesis by simp
qed

lemma or_empty_strip_text:
  "is_text c \<Longrightarrow> or_empty_strip c = Inr (py_strip (cell_text c))"
  by (cases c) (simp_all add: is_text_def or_empty_strip_def cell_text_def strip_empty)

lemma fold_update_distinct:
  "distinct (map fst acc) \<Longrightarrow> distinct (map fst (fold (\<lambda>x. AList.update (f x) (g x)) xs acc))"
  by (induction xs arbitrary: acc) (simp_all add: distinct_update)

lemma fold_update_map_of:
  "map_of (fold (\<lambda>x. AList.update (f x) (g x)) xs acc) k = Some v \<Longrightarrow>
     map_of acc k = Some v \<or> (\<exists>x \<in> set xs. k = f x \<and> v = g x)"
proof (induction xs arbitrary: acc)
  case Nil
  then show ?case by simp
next
  case (Cons x xs)
  from Cons.IH[of "AList.update (f x) (g x) acc"] Cons.prems
  show ?case by (auto simp: update_conv' split: if_splits)
qed

lemma fold_update_keys:
  "fst ` set (fold (\<lambda>x. AList.update (f x) (g x)) xs acc) = fst ` set acc \<union> f ` set xs"
  by (induction xs arbitrary: acc) (auto simp: dom_update)

lemma DictReader_row_distinct: "distinct (map fst (DictReader_row h r))"
proof -
  have 1: "distinct (map fst (fold (\<lambda>(k, v). AList.update (Some k) (CStr v)) (zip h r) []))"
    using fold_update_distinct[of "[]" "\<lambda>x. Some (fst x)" "\<lambda>x. CStr (snd x)" "zip h r"]
    by (simp add: case_prod_unfold)
  show ?thesis
    unfolding DictReader_row_def Let_def
    using 1 fold_update_distinct[of _ Some "\<lambda>x. CNone"]
    by (auto simp: distinct_update simp del: map_append)
qed

lemma DictReader_row_text:
  assumes "map_of (DictReader_row h r) (Some k) = Some c"
  shows "is_text c"
proof -
  let ?d0 = "fold (\<lambda>(k, v). AList.update (Some k) (CStr v)) (zip h r) []"
  have d0: "is_text c'" if "map_of ?d0 k' = Some c'" for k' c'
    using fold_update_map_of[of "\<lambda>x. Some (fst x)" "\<lambda>x. CStr (snd x)" "zip h r" "[]" k' c'] that
    by (auto simp: case_prod_unfold is_text_def)
  consider "length h < length r" | "length h > length r" | "length h = length r" by linarith
  then show ?thesis
  proof cases
    case 1
    then have "map_of ?d0 (Some k) = Some c"
      using assms by (simp add: DictReader_row_def Let_def update_conv')
    then show ?thesis by (rule d0)
  next
    case 2
    then have "map_of (fold (\<lambda>key. AList.update (Some key) CNone) (drop (length r) h) ?d0) (Some k) = Some c"
      using assms by (simp add: DictReader_row_def Let_def)
    from fold_update_map_of[OF this] d0 show ?thesis by (auto simp: is_text_def)
  next
    case 3
    then have "map_of ?d0 (Some k) = Some c"
      using assms by (simp add: DictReader_row_def Let_def)
    then show ?thesis by (rule d0)
  qed
qed

lemma DictReader_row_keys:
  "fst ` set (DictReader_row h r)
     = Some ` set h \<union> (if length h < length r then {None} else {})"
proof -
  let ?d0 = "fold (\<lambda>(k, v). AList.update (Some k) (CStr v)) (zip h r) []"
  have "set (map fst (zip h r)) = set (take (min (length h) (length r)) h)"
    by (simp only: map_fst_zip_take)
  moreover have "take (min (length h) (length r)) h = take (length r) h"
    by (simp add: min_def)
  ultimately have z: "fst ` set (zip h r) = set (take (length r) h)" by simp
  have "fst ` set ?d0 = (\<lambda>x. Some (fst x)) ` set (zip h r)"
    using fold_update_keys[of "\<lambda>x. Some (fst x)" "\<lambda>x. CStr (snd x)" "zip h r" "[]"]
    by (simp add: case_prod_unfold)
  also have "\<dots> = Some ` (fst ` set (zip h r))" by (simp only: image_image)
  finally have d0: "fst ` set ?d0 = Some ` set (take (length r) h)" by (simp only: z)
  consider "length h < length r" | "length h > length r" | "length h = length r" by linarith
  then show ?thesis
  proof cases
    case 1
    then show ?thesis using d0 by (simp add: DictReader_row_def Let_def dom_update)
  next
    case 2
    have "set (take (length r) h) \<union> set (drop (length r) h) = set h"
      by (metis append_take_drop_id set_append)
    then show ?thesis using 2 d0
      by (simp add: DictReader_row_def Let_def fold_update_keys image_Un[symmetric])
  next
    case 3
    then show ?thesis using d0 by (simp add: DictReader_row_def Let_def)
  qed
qed

lemma DictReader_row_None:
  "map_of (DictReader_row h r) None
     = (if length h < length r then Some (CList (drop (length h) r)) else None)"
proof (cases "length h < length r")
  case True
  then show ?thesis by (simp add: DictReader_row_def Let_def update_conv')
next
  case False
  then have "None \<notin> fst ` set (DictReader_row h r)" by (simp add: DictReader_row_keys)
  then show ?thesis using False by (simp add: map_of_eq_None_iff)
qed

lemma row_get_text: "is_text dflt \<Longrightarrow> is_text (row_get (DictReader_row h r) k dflt)"
  using DictReader_row_text[of h r k]
  by (auto simp: row_get_def split: option.splits)

lemma row_get_missing: "k \<notin> set h \<Longrightarrow> row_get (DictReader_row h r) k dflt = dflt"
proof -
  assume "k \<notin> set h"
  then have "Some k \<notin> fst ` set (DictReader_row h r)" by (auto simp: DictReader_row_keys split: if_splits)
  then have "map_of (DictReader_row h r) (Some k) = None" by (simp add: map_of_eq_None_iff)
  then show ?thesis by (simp add: row_get_def)
qed

lemma fold_update_untouched:
  "k \<notin> f ` set xs \<Longrightarrow> map_of (fold (\<lambda>x. AList.update (f x) (g x)) xs acc) k = map_of acc k"
  by (induction xs arbitrary: acc) (simp_all add: update_conv')

lemma fold_update_lookup:
  "distinct (map f xs) \<Longrightarrow> x \<in> set xs \<Longrightarrow>
     map_of (fold (\<lambda>x. AList.update (f x) (g x)) xs acc) (f x) = Some (g x)"
proof (induction xs arbitrary: acc)
  case Nil
  then show ?case by simp
next
  case (Cons y ys)
  show ?case
  proof (cases "x = y")
    case True
    with Cons.prems have "f y \<notin> f ` set ys" by simp
    from fold_update_untouched[OF this, where g=g and acc="AList.update (f y) (g y) acc"] True
    show ?thesis by (simp add: update_conv')
  next
    case False
    with Cons show ?thesis by simp
  qed
qed

lemma DictReader_row_lookup:
  assumes "distinct h" and "i < length h"
  shows "map_of (DictReader_row h r) (Some (h ! i)) = Some (if i < length r then CStr (r ! i) else CNone)"
proof -
  let ?f = "\<lambda>x :: pystr \<times> pystr. Some (fst x)"
  let ?g = "\<lambda>x :: pystr \<times> pystr. CStr (snd x)"
  let ?d0 = "fold (\<lambda>x. AList.update (?f x) (?g x)) (zip h r) []"
  have d0_def: "fold (\<lambda>(k, v). AList.update (Some k) (CStr v)) (zip h r) [] = ?d0"
    by (simp add: case_prod_unfold)
  have "map fst (zip h r) = take (min (length h) (length r)) h" by (rule map_fst_zip_take)
  then have "distinct (map fst (zip h r))" using assms(1) by simp
  then have dz: "distinct (map ?f (zip h r))"
    using distinct_map[of Some "map fst (zip h r)"] by (simp add: comp_def)
  have inside: "map_of ?d0 (Some (h ! i)) = Some (CStr (r ! i))" if "i < length r"
  proof -
    have "(h ! i, r ! i) \<in> set (zip h r)" using that assms(2) by (auto simp: set_zip)
    from fold_update_lookup[OF dz this, of ?g "[]"] show ?thesis by simp
  qed
  consider "length h < length r" | "length h > length r" | "length h = length r" by linarith
  then show ?thesis
  proof cases
    case 1
    then show ?thesis using inside assms(2)
      by (simp add: DictReader_row_def Let_def update_conv' d0_def)
  next
    case 2
    let ?rest = "drop (length r) h"
    have dr: "distinct (map Some ?rest)" using assms(1) by (simp add: distinct_map)
    have full: "map_of (DictReader_row h r) (Some (h ! i))
                  = map_of (fold (\<lambda>key. AList.update (Some key) CNone) ?rest ?d0) (Some (h ! i))"
      using 2 by (simp add: DictReader_row_def Let_def d0_def)
    show ?thesis
    proof (cases "i < length r")
      case True
      have "h ! i \<notin> set ?rest"
      proof
        assume "h ! i \<in> set ?rest"
        then obtain j where j: "j < length ?rest" "?rest ! j = h ! i" by (auto simp: in_set_conv_nth)
        then have "h ! (length r + j) = h ! i" "length r + j < length h" by simp_all
        with assms True show False by (auto simp: nth_eq_iff_index_eq)
      qed
      then have "Some (h ! i) \<notin> Some ` set ?rest" by auto
      from fold_update_untouched[OF this, where g="\<lambda>x. CNone" and acc="?d0"] inside[OF True] True full
      show ?thesis by simp
    next
      case False
      have "?rest ! (i - length r) = h ! i" using False 2 by simp
      moreover have "i - length r < length ?rest" using False assms(2) by simp
      ultimately have "h ! i \<in> set ?rest" by (metis nth_mem)
      from fold_update_lookup[OF dr this, of "\<lambda>x. CNone" ?d0] False full show ?thesis by simp
    qed
  next
    case 3
    then show ?thesis using inside assms(2) by (simp add: DictReader_row_def Let_def d0_def)
  qed
qed

lemma row_get_cell:
  "distinct h \<Longrightarrow> i < length h \<Longrightarrow>
     row_get (DictReader_row h r) (h ! i) dflt = (if i < length r then CStr (r ! i) else CNone)"
  by (simp add: row_get_def DictReader_row_lookup)

lemma digit_value_ascii: "48 \<le> c \<Longrightarrow> c \<le> 57 \<Longrightarrow> digit_value c = Some (c - 48)"
  by (simp add: digit_value_def decimal_digit_zeros_def)

text \<open>
  \<^verbatim>\<open>int\<close> reads the digits of other scripts (here Arabic-Indic one and two), and
  refuses a numeral of 4301 digits.
\<close>

lemma int_of_other_digits: "py_int (CStr [1633, 1634]) = Inr 12"
  by (simp add: py_int_def py_int_str_def int_isspace_def py_isspace_def parse_decimal_def
        is_digit_def digit_value_def decimal_digit_zeros_def)

lemma int_of_long_numeral: "py_int (CStr (replicate 4301 49)) = Inl ValueError"
proof -
  have s: "\<not> int_isspace 49" by (simp add: int_isspace_def py_isspace_def)
  have d: "is_digit 49" by (simp add: is_digit_def digit_value_ascii)
  have r1: "dropWhile int_isspace (replicate 4301 49) = replicate 4301 49"
    using s by (simp add: dropWhile_replicate)
  have r2: "rev (replicate 4301 49) = replicate 4301 (49::nat)" by (rule rev_replicate)
  have "(4301::nat) = Suc 4300" by simp
  then have r3: "replicate 4301 (49::nat) = 49 # replicate 4300 49"
    by (simp only: replicate_Suc)
  have r: "rev (dropWhile int_isspace (rev (dropWhile int_isspace (replicate 4301 49))))
          = 49 # replicate 4300 49"
    unfolding r1 r2 r1 by (rule r3)
  have f: "filter is_digit (replicate 4300 49) = replicate 4300 49"
    using d by (simp add: filter_id_conv)
  show ?thesis
    unfolding py_int_def py_int_str_def cell.case r
    by (simp add: Let_def d f split: option.splits)
qed

lemma coerce_int_failure: "py_int c = Inl e \<Longrightarrow> coerce_int c = None"
  by (simp add: coerce_int_def)

lemma py_int_empty: "py_int (CStr []) = Inl ValueError" "py_int CNone = Inl TypeError"
  "py_int (CList xs) = Inl TypeError"
  by (simp_all add: py_int_def py_int_str_def)

lemma for_rows_total:
  "(\<And>x. x \<in> set xs \<Longrightarrow> \<exists>y. f x = Inr y) \<Longrightarrow>
     \<exists>ys. for_rows f xs = Inr ys \<and> length ys = length xs"
proof (induction xs)
  case Nil
  show ?case by simp
next
  case (Cons x xs)
  then obtain y ys where "f x = Inr y" "for_rows f xs = Inr ys" "length ys = length xs"
    by (metis list.set_intros(1,2))
  then show ?case by simp
qed

lemma for_rows_map:
  "(\<And>x. x \<in> set xs \<Longrightarrow> \<exists>y. f x = Inr y) \<Longrightarrow>
     \<exists>ys. for_rows f xs = Inr ys \<and> map Inr ys = map f xs"
proof (induction xs)
  case Nil
  show ?case by simp
next
  case (Cons x xs)
  then obtain y ys where "f x = Inr y" "for_rows f xs = Inr ys" "map Inr ys = map f xs"
    by (metis list.set_intros(1,2))
  then show ?case by simp
qed

lemma make_bio_row_DictReader:
  "make_bio_row (DictReader_row h r) =
     Inr \<lparr>Number = coerce_int (row_get (DictReader_row h r) (lit ''Number'') (CStr [])),
          Player = Some (py_strip (cell_text (row_get (DictReader_row h r) (lit ''Player'') CNone))),
          FirstName = py_strip (cell_text (row_get (DictReader_row h r) (lit ''FirstName'') CNone)),
          LastName = py_strip (cell_text (row_get (DictReader_row h r) (lit ''LastName'') CNone)),
          Position = Some (py_strip (cell_text (row_get (DictReader_row h r) (lit ''Position'') CNone))),
          Height = Some (py_strip (cell_text (row_get (DictReader_row h r) (lit ''Height'') CNone))),
          Weight = Some (py_strip (cell_text (row_get (DictReader_row h r) (lit ''Weight'') CNone))),
          Class = Some (py_strip (cell_text (row_get (DictReader_row h r) (lit ''Class'') CNone))),
          Hometown = Some (py_strip (cell_text (row_get (DictReader_row h r) (lit ''Hometown'') CNone))),
          HighSchool = Some (py_strip (cell_text (row_get (DictReader_row h r) (lit ''HighSchool'') CNone)))\<rparr>"
proof -
  have t: "or_empty_strip (row_get (DictReader_row h r) k CNone)
             = Inr (py_strip (cell_text (row_get (DictReader_row h r) k CNone)))" for k
    by (rule or_empty_strip_text) (rule row_get_text, simp add: is_text_def)
  show ?thesis by (simp add: make_bio_row_def bind_err_def Let_def t)
qed

lemma DictReader_rows:
  "x \<in> set (DictReader csv_lines) \<Longrightarrow> \<exists>h r. x = DictReader_row h r"
  by (cases csv_lines) (auto simp: DictReader_def)

section \<open>The bio pass\<close>

text \<open>
  C2.  For every header and every line of a bio file the bio pass produces a record,
  and every string field of it is the stripped text of the cell the row dictionary has
  for the column, the text of a missing or null cell being the empty string; so no
  string field is ever \<^verbatim>\<open>None\<close>.  A column that is not in the header gives the empty
  string; with a header of distinct names, the column at position \<open>i\<close> gives the
  stripped cell \<open>i\<close> of the line, and the empty string when the line has no such cell.
  Stripping removes whitespace at both ends and nothing else.  The pass over a file
  returns these records, one for each line after the header that is not empty, in the
  order of the lines, and no line makes it raise.
\<close>

theorem bio_string_fields:
  "make_bio_row (DictReader_row h r) =
     Inr \<lparr>Number = coerce_int (row_get (DictReader_row h r) (lit ''Number'') (CStr [])),
          Player = Some (py_strip (cell_text (row_get (DictReader_row h r) (lit ''Player'') CNone))),
          FirstName = py_strip (cell_text (row_get (DictReader_row h r) (lit ''FirstName'') CNone)),
          LastName = py_strip (cell_text (row_get (DictReader_row h r) (lit ''LastName'') CNone)),
          Position = Some (py_strip (cell_text (row_get (DictReader_row h r) (lit ''Position'') CNone))),
          Height = Some (py_strip (cell_text (row_get (DictReader_row h r) (lit ''Height'') CNone))),
          Weight = Some (py_strip (cell_text (row_get (DictReader_row h r) (lit ''Weight'') CNone))),
          Class = Some (py_strip (cell_text (row_get (DictReader_row h r) (lit ''Class'') CNone))),
          Hometown = Some (py_strip (cell_text (row_get (DictReader_row h r) (lit ''Hometown'') CNone))),
          HighSchool = Some (py_strip (cell_text (row_get (DictReader_row h r) (lit ''HighSchool'') CNone)))\<rparr>
   \<and> (\<forall>k. k \<notin> set h \<longrightarrow> py_strip (cell_text (row_get (DictReader_row h r) k CNone)) = [])
   \<and> (\<forall>i. distinct h \<and> i < length h \<longrightarrow>
          py_strip (cell_text (row_get (DictReader_row h r) (h ! i) CNone))
            = (if i < length r then py_strip (r ! i) else []))
   \<and> (\<exists>pre post. s = pre @ py_strip s @ post \<and> list_all py_isspace pre \<and> list_all py_isspace post)
   \<and> (py_strip s \<noteq> [] \<longrightarrow> \<not> py_isspace (hd (py_strip s)) \<and> \<not> py_isspace (last (py_strip s)))
   \<and> (\<exists>bios. make_bio_instances (h # rows) = Inr bios
          \<and> map Inr bios = map (\<lambda>l. make_bio_row (DictReader_row h l)) (filter (\<lambda>l. l \<noteq> []) rows))
   \<and> make_bio_instances [] = Inr []"
proof -
  have m: "\<forall>k. k \<notin> set h \<longrightarrow> py_strip (cell_text (row_get (DictReader_row h r) k CNone)) = []"
    by (simp add: row_get_missing cell_text_def strip_empty)
  have c: "\<forall>i. distinct h \<and> i < length h \<longrightarrow>
          py_strip (cell_text (row_get (DictReader_row h r) (h ! i) CNone))
            = (if i < length r then py_strip (r ! i) else [])"
    by (simp add: row_get_cell cell_text_def strip_empty)
  have "\<exists>y. make_bio_row x = Inr y" if "x \<in> set (DictReader (h # rows))" for x
    using DictReader_rows[OF that] make_bio_row_DictReader by metis
  then have "\<exists>bios. make_bio_instances (h # rows) = Inr bios
      \<and> map Inr bios = map make_bio_row (DictReader (h # rows))"
    unfolding make_bio_instances_def by (rule for_rows_map)
  then have t: "\<exists>bios. make_bio_instances (h # rows) = Inr bios
          \<and> map Inr bios = map (\<lambda>l. make_bio_row (DictReader_row h l)) (filter (\<lambda>l. l \<noteq> []) rows)"
    by (simp add: DictReader_def comp_def)
  have e: "make_bio_instances [] = Inr []"
    by (simp add: make_bio_instances_def DictReader_def)
  show ?thesis
    using make_bio_row_DictReader[of h r] m c strip_decomposition[of s] strip_ends[of s] t e
    by blast
qed

lemma example_bio_cells:
  "row_get (DictReader_row example_bio_header example_bio_line) (lit ''Number'') (CStr []) = CStr (lit '' 7'')"
  "row_get (DictReader_row example_bio_header example_bio_line) (lit ''Player'') CNone = CStr (lit '' Jane Doe '')"
  "row_get (DictReader_row example_bio_header example_bio_line) (lit ''FirstName'') CNone = CStr (lit ''Jane '')"
  "row_get (DictReader_row example_bio_header example_bio_line) (lit ''LastName'') CNone = CStr (lit '' Doe'')"
  "row_get (DictReader_row example_bio_header example_bio_line) (lit ''Position'') CNone = CNone"
  "row_get (DictReader_row example_bio_header example_bio_line) (lit ''Height'') CNone = CNone"
  "row_get (DictReader_row example_bio_header example_bio_line) (lit ''Weight'') CNone = CNone"
  "row_get (DictReader_row example_bio_header example_bio_line) (lit ''Class'') CNone = CNone"
  "row_get (DictReader_row example_bio_header example_bio_line) (lit ''Hometown'') CNone = CNone"
  "row_get (DictReader_row example_bio_header example_bio_line) (lit ''HighSchool'') CNone = CNone"
proof -
  have d: "distinct example_bio_header" by (simp add: example_bio_header_def lit_def)
  have n: "length example_bio_header = 5" "length example_bio_line = 4"
    by (simp_all add: example_bio_header_def example_bio_line_def)
  have h: "example_bio_header ! 0 = lit ''Number''" "example_bio_header ! Suc 0 = lit ''Player''"
    "example_bio_header ! 2 = lit ''FirstName''" "example_bio_header ! 3 = lit ''LastName''"
    "example_bio_header ! 4 = lit ''Position''"
    by (simp_all add: example_bio_header_def)
  have l: "example_bio_line ! 0 = lit '' 7''" "example_bio_line ! Suc 0 = lit '' Jane Doe ''"
    "example_bio_line ! 2 = lit ''Jane ''" "example_bio_line ! 3 = lit '' Doe''"
    by (simp_all add: example_bio_line_def)
  show "row_get (DictReader_row example_bio_header example_bio_line) (lit ''Number'') (CStr []) = CStr (lit '' 7'')"
    using row_get_cell[OF d, of 0 example_bio_line "CStr []"] by (simp add: n h l)
  show "row_get (DictReader_row example_bio_header example_bio_line) (lit ''Player'') CNone = CStr (lit '' Jane Doe '')"
    using row_get_cell[OF d, of "Suc 0" example_bio_line CNone] by (simp add: n h l)
  show "row_get (DictReader_row example_bio_header example_bio_line) (lit ''FirstName'') CNone = CStr (lit ''Jane '')"
    using row_get_cell[OF d, of 2 example_bio_line CNone] by (simp add: n h l)
  show "row_get (DictReader_row example_bio_header example_bio_line) (lit ''LastName'') CNone = CStr (lit '' Doe'')"
    using row_get_cell[OF d, of 3 example_bio_line CNone] by (simp add: n h l)
  show "row_get (DictReader_row example_bio_header example_bio_line) (lit ''Position'') CNone = CNone"
    using row_get_cell[OF d, of 4 example_bio_line CNone] by (simp add: n h l)
  show "row_get (DictReader_row example_bio_header example_bio_line) (lit ''Height'') CNone = CNone"
    by (rule row_get_missing) (simp add: example_bio_header_def lit_def)
  show "row_get (DictReader_row example_bio_header example_bio_line) (lit ''Weight'') CNone = CNone"
    by (rule row_get_missing) (simp add: example_bio_header_def lit_def)
  show "row_get (DictReader_row example_bio_header example_bio_line) (lit ''Class'') CNone = CNone"
    by (rule row_get_missing) (simp add: example_bio_header_def lit_def)
  show "row_get (DictReader_row example_bio_header example_bio_line) (lit ''Hometown'') CNone = CNone"
    by (rule row_get_missing) (simp add: example_bio_header_def lit_def)
  show "row_get (DictReader_row example_bio_header example_bio_line) (lit ''HighSchool'') CNone = CNone"
    by (rule row_get_missing) (simp add: example_bio_header_def lit_def)
qed

lemma example_values:
  "py_strip (lit '' Jane Doe '') = lit ''Jane Doe''" "py_strip (lit ''Jane '') = lit ''Jane''"
  "py_strip (lit '' Doe'') = lit ''Doe''" "coerce_int (CStr (lit '' 7'')) = Some 7"
  by (simp_all add: py_strip_def lit_def py_isspace_def coerce_int_def py_int_def py_int_str_def
        int_isspace_def parse_decimal_def is_digit_def digit_value_def decimal_digit_zeros_def)

theorem bio_string_fields_witness:
  "make_bio_row (DictReader_row example_bio_header example_bio_line) =
     Inr \<lparr>Number = Some 7, Player = Some (lit ''Jane Doe''), FirstName = lit ''Jane'',
          LastName = lit ''Doe'', Position = Some [], Height = Some [], Weight = Some [],
          Class = Some [], Hometown = Some [], HighSchool = Some []\<rparr>
   \<and> make_bio_instances [example_bio_header, [], example_bio_line] =
     Inr [\<lparr>Number = Some 7, Player = Some (lit ''Jane Doe''), FirstName = lit ''Jane'',
           LastName = lit ''Doe'', Position = Some [], Height = Some [], Weight = Some [],
           Class = Some [], Hometown = Some [], HighSchool = Some []\<rparr>]"
proof -
  note t = bio_string_fields[of example_bio_header example_bio_line _ "[[], example_bio_line]"]
  from t
  have "make_bio_row (DictReader_row example_bio_header example_bio_line) =
     Inr \<lparr>Number = coerce_int (row_get (DictReader_row example_bio_header example_bio_line) (lit ''Number'') (CStr [])),
          Player = Some (py_strip (cell_text (row_get (DictReader_row example_bio_header example_bio_line) (lit ''Player'') CNone))),
          FirstName = py_strip (cell_text (row_get (DictReader_row example_bio_header example_bio_line) (lit ''FirstName'') CNone)),
          LastName = py_strip (cell_text (row_get (DictReader_row example_bio_header example_bio_line) (lit ''LastName'') CNone)),
          Position = Some (py_strip (cell_text (row_get (DictReader_row example_bio_header example_bio_line) (lit ''Position'') CNone))),
          Height = Some (py_strip (cell_text (row_get (DictReader_row example_bio_header example_bio_line) (lit ''Height'') CNone))),
          Weight = Some (py_strip (cell_text (row_get (DictReader_row example_bio_header example_bio_line) (lit ''Weight'') CNone))),
          Class = Some (py_strip (cell_text (row_get (DictReader_row example_bio_header example_bio_line) (lit ''Class'') CNone))),
          Hometown = Some (py_strip (cell_text (row_get (DictReader_row example_bio_header example_bio_line) (lit ''Hometown'') CNone))),
          HighSchool = Some (py_strip (cell_text (row_get (DictReader_row example_bio_header example_bio_line) (lit ''HighSchool'') CNone)))\<rparr>"
    by blast
  then have 1: "make_bio_row (DictReader_row example_bio_header example_bio_line) =
     Inr \<lparr>Number = Some 7, Player = Some (lit ''Jane Doe''), FirstName = lit ''Jane'',
          LastName = lit ''Doe'', Position = Some [], Height = Some [], Weight = Some [],
          Class = Some [], Hometown = Some [], HighSchool = Some []\<rparr>"
    by (simp only: example_bio_cells cell_text_def cell.case example_values strip_empty)
  have ne: "example_bio_line \<noteq> []" by (simp add: example_bio_line_def)
  from t obtain bios where b: "make_bio_instances [example_bio_header, [], example_bio_line] = Inr bios"
    "map Inr bios = map (\<lambda>l. make_bio_row (DictReader_row example_bio_header l))
                      (filter (\<lambda>l. l \<noteq> []) [[], example_bio_line])"
    by blast
  from b(2) ne have "map Inr bios = [make_bio_row (DictReader_row example_bio_header example_bio_line)]"
    by simp
  then have "bios = [\<lparr>Number = Some 7, Player = Some (lit ''Jane Doe''), FirstName = lit ''Jane'',
          LastName = lit ''Doe'', Position = Some [], Height = Some [], Weight = Some [],
          Class = Some [], Hometown = Some [], HighSchool = Some []\<rparr>]"
    unfolding 1 by (cases bios) auto
  with 1 b(1) show ?thesis by simp
qed

section \<open>The stats pass\<close>

lemma names_distinct:
  "lit ''PN-PIM'' \<noteq> lit ''PN_PIM''" "lit ''PN_PIM'' \<noteq> lit ''PN-PIM''"
  "lit ''PN_PIM'' \<notin> set [lit ''Number'', lit ''FirstName'', lit ''LastName'']"
  "lit ''PN-PIM'' \<notin> set [lit ''Number'', lit ''FirstName'', lit ''LastName'']"
  "lit ''PN_PIM'' \<notin> set int_fields" "lit ''PN-PIM'' \<notin> set int_fields"
  "lit ''PN_PIM'' \<noteq> lit ''SH_PCT''" "lit ''PN-PIM'' \<noteq> lit ''SH_PCT''"
  "lit ''FirstName'' \<notin> set int_fields" "lit ''LastName'' \<notin> set int_fields"
  "lit ''FirstName'' \<noteq> lit ''SH_PCT''" "lit ''LastName'' \<noteq> lit ''SH_PCT''"
  "lit ''Number'' \<in> set int_fields"
  "lit ''Number'' \<noteq> lit ''FirstName''" "lit ''Number'' \<noteq> lit ''LastName''"
  "lit ''FirstName'' \<noteq> lit ''LastName''" "lit ''FirstName'' \<noteq> lit ''Number''"
  "lit ''LastName'' \<noteq> lit ''Number''" "lit ''LastName'' \<noteq> lit ''FirstName''"
  by (simp_all add: int_fields_def lit_def)

lemma or_empty_strip_error: "or_empty_strip c = Inl e \<Longrightarrow> e = AttributeError"
  by (cases c) (auto simp: or_empty_strip_def split: if_splits)

lemma stats_step:
  "is_text c \<Longrightarrow> stats_items ((Some k, c) # items) kw = stats_items items (effect (Some k, c) kw)"
  by (auto simp: effect_def convert_def or_empty_strip_text image_iff)

lemma stats_items_text:
  "(\<And>k c. (k, c) \<in> set items \<Longrightarrow> k \<noteq> None \<and> is_text c) \<Longrightarrow>
     stats_items items kw = Inr (fold effect items kw)"
proof (induction items arbitrary: kw)
  case Nil
  show ?case by simp
next
  case (Cons item items)
  obtain key c where item: "item = (key, c)" by (cases item)
  with Cons.prems[of key c] obtain k where k: "key = Some k" and t: "is_text c" by auto
  have "stats_items (item # items) kw = stats_items items (effect item kw)"
    using stats_step[OF t] item k by simp
  also have "\<dots> = Inr (fold effect items (effect item kw))"
  proof (rule Cons.IH)
    fix k' c' assume "(k', c') \<in> set items"
    then have "(k', c') \<in> set (item # items)" by simp
    then show "k' \<noteq> None \<and> is_text c'" by (rule Cons.prems)
  qed
  finally show ?case by simp
qed

lemma stats_items_list:
  "(None, CList xs) \<in> set items \<Longrightarrow> xs \<noteq> [] \<Longrightarrow> stats_items items kw = Inl AttributeError"
proof (induction items arbitrary: kw)
  case Nil
  then show ?case by simp
next
  case (Cons item items)
  obtain key c where item: "item = (key, c)" by (cases item)
  show ?case
  proof (cases "item = (None, CList xs)")
    case True
    then show ?thesis using Cons.prems(2) by (simp add: or_empty_strip_def)
  next
    case False
    then have IH: "stats_items items kw' = Inl AttributeError" for kw'
      using Cons by auto
    have e: "or_empty_strip c = Inl e \<Longrightarrow> e = AttributeError" for e
      by (rule or_empty_strip_error)
    show ?thesis unfolding item
      by (cases "or_empty_strip c") (auto simp: IH dest: e)
  qed
qed

lemma effect_None: "effect item kw None = kw None"
  by (simp add: effect_def split: option.splits)

lemma fold_effect_None: "fold effect items kw None = kw None"
  by (induction items arbitrary: kw) (simp_all add: effect_None)

lemma effect_other:
  "Some k \<noteq> fst item \<Longrightarrow> k \<noteq> lit ''PN_PIM'' \<Longrightarrow> effect item kw (Some k) = kw (Some k)"
  by (auto simp: effect_def split: option.splits)

lemma fold_effect_other:
  "Some k \<notin> fst ` set items \<Longrightarrow> k \<noteq> lit ''PN_PIM'' \<Longrightarrow> fold effect items kw (Some k) = kw (Some k)"
  by (induction items arbitrary: kw) (simp_all add: effect_other)

lemma effect_direct:
  "k \<in> set [lit ''Number'', lit ''FirstName'', lit ''LastName'', lit ''PN-PIM''] \<Longrightarrow>
     effect item kw (Some k) = kw (Some k)"
  using names_distinct by (auto simp: effect_def split: option.splits)

lemma fold_effect_direct:
  "k \<in> set [lit ''Number'', lit ''FirstName'', lit ''LastName'', lit ''PN-PIM''] \<Longrightarrow>
     fold effect items kw (Some k) = kw (Some k)"
  by (induction items arbitrary: kw) (simp_all add: effect_direct del: set_simps)

lemma effect_written:
  "k \<notin> set [lit ''Number'', lit ''FirstName'', lit ''LastName'', lit ''PN-PIM''] \<Longrightarrow>
     effect (Some k, c) kw (Some k) = Some (convert k c)"
  by (auto simp: effect_def)

lemma fold_effect_column:
  assumes "distinct (map fst items)" and "map_of items (Some k) = Some c"
    and "k \<notin> set [lit ''Number'', lit ''FirstName'', lit ''LastName'', lit ''PN-PIM'']"
    and "k \<noteq> lit ''PN_PIM''"
  shows "fold effect items kw (Some k) = Some (convert k c)"
  using assms(1,2)
proof (induction items arbitrary: kw)
  case Nil
  then show ?case by simp
next
  case (Cons item items)
  show ?case
  proof (cases "fst item = Some k")
    case True
    with Cons.prems have "item = (Some k, c)" and "Some k \<notin> fst ` set items"
      by (auto simp: prod_eq_iff)
    then show ?thesis
      using fold_effect_other[of k items "effect (Some k, c) kw"] assms(3,4) effect_written[OF assms(3)]
      by simp
  next
    case False
    with Cons show ?thesis by (auto split: if_splits)
  qed
qed




lemma effect_dom: "kw x \<noteq> None \<Longrightarrow> effect item kw x \<noteq> None"
  by (auto simp: effect_def split: option.splits)

lemma fold_effect_dom: "kw x \<noteq> None \<Longrightarrow> fold effect items kw x \<noteq> None"
proof (induction items arbitrary: kw)
  case Nil
  then show ?case by simp
next
  case (Cons item items)
  from Cons.IH[of "effect item kw"] effect_dom[of kw x item] Cons.prems show ?case by simp
qed

lemma effect_new:
  "effect item kw (Some k) \<noteq> None \<Longrightarrow>
     kw (Some k) \<noteq> None \<or> fst item = Some k \<or> k = lit ''PN_PIM''"
  by (auto simp: effect_def split: option.splits if_splits)

lemma fold_effect_new:
  "fold effect items kw (Some k) \<noteq> None \<Longrightarrow>
     kw (Some k) \<noteq> None \<or> Some k \<in> fst ` set items \<or> k = lit ''PN_PIM''"
proof (induction items arbitrary: kw)
  case Nil
  then show ?case by simp
next
  case (Cons item items)
  from Cons.IH[of "effect item kw"] Cons.prems effect_new[of item kw k]
  show ?case by auto
qed

lemma DictReader_row_items:
  assumes "(k, c) \<in> set (DictReader_row h r)"
  shows "map_of (DictReader_row h r) k = Some c"
  using assms DictReader_row_distinct[of h r] by simp

lemma declared_fields:
  "lit ''Number'' \<in> set Stats_fields" "lit ''FirstName'' \<in> set Stats_fields"
  "lit ''LastName'' \<in> set Stats_fields" "lit ''PN_PIM'' \<in> set Stats_fields"
  "lit ''PN-PIM'' \<notin> set Stats_fields"
  by (simp_all add: Stats_fields_def lit_def)

lemma int_fields_declared: "k \<in> set int_fields \<Longrightarrow> k \<in> set Stats_fields"
  by (auto simp: int_fields_def Stats_fields_def)

lemma stats_items_short:
  assumes "length r \<le> length h"
  shows "stats_items (DictReader_row h r) kw = Inr (fold effect (DictReader_row h r) kw)"
proof -
  let ?d = "DictReader_row h r"
  have items: "k \<noteq> None \<and> is_text c" if "(k, c) \<in> set ?d" for k c
  proof -
    from that have "k \<in> fst ` set ?d" by force
    then have k: "k \<noteq> None" using assms by (auto simp: DictReader_row_keys)
    then obtain k' where "k = Some k'" by auto
    with DictReader_row_items[OF that] have "is_text c" using DictReader_row_text by simp
    with k show ?thesis by simp
  qed
  show ?thesis by (rule stats_items_text) (rule items)
qed

lemma make_stats_row_short:
  assumes "length r \<le> length h"
  shows "make_stats_row (DictReader_row h r)
           = Inr (\<lambda>k. if k \<in> set Stats_fields
                       then fold effect (DictReader_row h r) (direct_fields (DictReader_row h r)) (Some k)
                       else None)"
proof -
  let ?d = "DictReader_row h r"
  have t: "or_empty_strip (row_get ?d k CNone) = Inr (py_strip (cell_text (row_get ?d k CNone)))" for k
    by (rule or_empty_strip_text) (rule row_get_text, simp add: is_text_def)
  have s: "stats_items ?d kw = Inr (fold effect ?d kw)" for kw
    by (rule stats_items_short[OF assms])
  have n: "fold effect ?d (direct_fields ?d) None = None"
    by (simp add: fold_effect_None direct_fields_def)
  have "make_stats_row ?d = Stats_of (fold effect ?d (direct_fields ?d))"
    by (simp add: make_stats_row_def Let_def bind_err_def t s direct_fields_def)
  then show ?thesis using n by (simp add: Stats_of_def)
qed

lemma long_row_raises:
  assumes "length h < length r"
  shows "make_stats_row (DictReader_row h r) = Inl AttributeError"
proof -
  let ?d = "DictReader_row h r"
  have t: "or_empty_strip (row_get ?d k CNone) = Inr (py_strip (cell_text (row_get ?d k CNone)))" for k
    by (rule or_empty_strip_text) (rule row_get_text, simp add: is_text_def)
  have "map_of ?d None = Some (CList (drop (length h) r))"
    using assms by (simp add: DictReader_row_None)
  then have "(None, CList (drop (length h) r)) \<in> set ?d" by (rule map_of_SomeD)
  moreover have "drop (length h) r \<noteq> []" using assms by simp
  ultimately have "stats_items ?d kw = Inl AttributeError" for kw
    by (rule stats_items_list)
  then show ?thesis by (simp add: make_stats_row_def Let_def bind_err_def t)
qed

lemma record_has_no_surplus:
  "make_stats_row (DictReader_row h r) = Inr st \<Longrightarrow> length r \<le> length h"
  using long_row_raises[of h r] by (cases "length h < length r") simp_all

lemma stats_record:
  assumes "make_stats_row (DictReader_row h r) = Inr st"
  shows "st = (\<lambda>k. if k \<in> set Stats_fields
                    then fold effect (DictReader_row h r) (direct_fields (DictReader_row h r)) (Some k)
                    else None)"
  using make_stats_row_short[OF record_has_no_surplus[OF assms]] assms by simp

lemma stats_undeclared:
  "make_stats_row (DictReader_row h r) = Inr st \<Longrightarrow> k \<notin> set Stats_fields \<Longrightarrow> st k = None"
  by (drule stats_record) simp

lemma stats_direct:
  assumes "make_stats_row (DictReader_row h r) = Inr st"
  shows "st (lit ''Number'') = Some (IntField (coerce_int (row_get (DictReader_row h r) (lit ''Number'') (CStr []))))"
    and "st (lit ''FirstName'') = Some (StrField (py_strip (cell_text (row_get (DictReader_row h r) (lit ''FirstName'') CNone))))"
    and "st (lit ''LastName'') = Some (StrField (py_strip (cell_text (row_get (DictReader_row h r) (lit ''LastName'') CNone))))"
    and "st (lit ''PN-PIM'') = None"
proof -
  let ?d = "DictReader_row h r"
  note st = stats_record[OF assms]
  show "st (lit ''Number'') = Some (IntField (coerce_int (row_get ?d (lit ''Number'') (CStr []))))"
    by (subst st) (use names_distinct in \<open>simp add: fold_effect_direct direct_fields_def declared_fields\<close>)
  show "st (lit ''FirstName'') = Some (StrField (py_strip (cell_text (row_get ?d (lit ''FirstName'') CNone))))"
    by (subst st) (use names_distinct in \<open>simp add: fold_effect_direct direct_fields_def declared_fields\<close>)
  show "st (lit ''LastName'') = Some (StrField (py_strip (cell_text (row_get ?d (lit ''LastName'') CNone))))"
    by (subst st) (use names_distinct in \<open>simp add: fold_effect_direct direct_fields_def declared_fields\<close>)
  show "st (lit ''PN-PIM'') = None"
    by (subst st) (simp add: declared_fields)
qed

lemma stats_column:
  assumes "make_stats_row (DictReader_row h r) = Inr st"
    and "map_of (DictReader_row h r) (Some k) = Some c"
    and "k \<notin> set [lit ''Number'', lit ''FirstName'', lit ''LastName'', lit ''PN-PIM'', lit ''PN_PIM'']"
    and "k \<in> set Stats_fields"
  shows "st k = Some (convert k c)"
proof -
  let ?d = "DictReader_row h r"
  have "fold effect ?d (direct_fields ?d) (Some k) = Some (convert k c)"
    using assms(3) by (intro fold_effect_column DictReader_row_distinct assms(2)) simp_all
  then show ?thesis by (subst stats_record[OF assms(1)]) (simp add: assms(4))
qed

lemma stats_names:
  assumes "make_stats_row (DictReader_row h r) = Inr st" and "st k \<noteq> None"
  shows "k \<in> set Stats_fields"
    and "k = lit ''PN_PIM'' \<or> k \<in> set h \<or> k \<in> set [lit ''Number'', lit ''FirstName'', lit ''LastName'']"
proof -
  let ?d = "DictReader_row h r"
  note st = stats_record[OF assms(1)]
  show d: "k \<in> set Stats_fields"
  proof (rule ccontr)
    assume "k \<notin> set Stats_fields"
    then have "st k = None" by (subst st) simp
    with assms(2) show False by simp
  qed
  have "st k = fold effect ?d (direct_fields ?d) (Some k)" by (subst st) (simp add: d)
  with assms(2) have "fold effect ?d (direct_fields ?d) (Some k) \<noteq> None" by simp
  from fold_effect_new[OF this]
  show "k = lit ''PN_PIM'' \<or> k \<in> set h \<or> k \<in> set [lit ''Number'', lit ''FirstName'', lit ''LastName'']"
    by (auto simp: direct_fields_def DictReader_row_keys split: if_splits)
qed





lemma fold_effect_present:
  assumes "Some k \<in> fst ` set items"
    and "k \<notin> set [lit ''Number'', lit ''FirstName'', lit ''LastName'', lit ''PN-PIM'']"
  shows "fold effect items kw (Some k) \<noteq> None"
  using assms(1)
proof (induction items arbitrary: kw)
  case Nil
  then show ?case by simp
next
  case (Cons item items)
  show ?case
  proof (cases "fst item = Some k")
    case True
    then have "item = (Some k, snd item)" by (simp add: prod_eq_iff)
    then have "effect item kw (Some k) \<noteq> None"
      using effect_written[OF assms(2), of "snd item" kw] by simp
    with fold_effect_dom[of "effect item kw" "Some k" items] show ?thesis by simp
  next
    case False
    with Cons show ?thesis by auto
  qed
qed



lemma stats_present:
  assumes "make_stats_row (DictReader_row h r) = Inr st"
    and "k \<in> set h" and "k \<in> set Stats_fields"
  shows "st k \<noteq> None"
proof -
  let ?d = "DictReader_row h r"
  have k: "k \<noteq> lit ''PN-PIM''" using assms(3) declared_fields(5) by auto
  have "fold effect ?d (direct_fields ?d) (Some k) \<noteq> None"
  proof (cases "k \<in> set [lit ''Number'', lit ''FirstName'', lit ''LastName'']")
    case True
    then have "direct_fields ?d (Some k) \<noteq> None" by (auto simp: direct_fields_def)
    with fold_effect_dom[of "direct_fields ?d" "Some k" ?d] show ?thesis by simp
  next
    case False
    have "Some k \<in> fst ` set ?d" using assms(2) by (simp add: DictReader_row_keys)
    from fold_effect_present[OF this] False k show ?thesis by simp
  qed
  then show ?thesis by (subst stats_record[OF assms(1)]) (simp add: assms(3))
qed


lemma int_field_names:
  "k \<in> set int_fields \<Longrightarrow> k \<noteq> lit ''Number'' \<Longrightarrow>
     k \<notin> set [lit ''Number'', lit ''FirstName'', lit ''LastName'', lit ''PN-PIM'', lit ''PN_PIM'']"
  using names_distinct by auto

section \<open>Integer cells\<close>

text \<open>
  \<^verbatim>\<open>_coerce_int\<close> returns \<^verbatim>\<open>None\<close> whenever \<^verbatim>\<open>int\<close> raises, and it does so for the empty
  string and for a missing cell.  For every header and line the bio pass produces a
  record whose Number is the coerced cell (the empty string when the column is absent).
  For every line without surplus cells the stats pass produces a record: Number is the
  coerced cell; every other column of the integer set that is in the row holds its
  coerced cell, \<^verbatim>\<open>None\<close> when it cannot be parsed; and a column of the integer set that
  is not in the header is not set.
\<close>

lemma int_cells_without_surplus:
  "(py_int c = Inl e \<longrightarrow> coerce_int c = None)
   \<and> coerce_int (CStr []) = None \<and> coerce_int CNone = None
   \<and> (\<exists>b. make_bio_row (DictReader_row h r) = Inr b
          \<and> Number b = coerce_int (row_get (DictReader_row h r) (lit ''Number'') (CStr [])))
   \<and> (length r \<le> length h \<longrightarrow>
        (\<exists>st. make_stats_row (DictReader_row h r) = Inr st
           \<and> st (lit ''Number'')
                = Some (IntField (coerce_int (row_get (DictReader_row h r) (lit ''Number'') (CStr []))))
           \<and> (\<forall>k cl. k \<in> set int_fields \<and> k \<noteq> lit ''Number''
                  \<and> map_of (DictReader_row h r) (Some k) = Some cl
                \<longrightarrow> st k = Some (IntField (coerce_int cl)))
           \<and> (\<forall>k. k \<in> set int_fields \<and> k \<noteq> lit ''Number'' \<and> k \<notin> set h \<longrightarrow> st k = None)))"
proof -
  have 1: "py_int c = Inl e \<longrightarrow> coerce_int c = None" by (simp add: coerce_int_failure)
  have 2: "coerce_int (CStr []) = None" "coerce_int CNone = None"
    by (simp_all add: coerce_int_def py_int_empty)
  have 3: "\<exists>b. make_bio_row (DictReader_row h r) = Inr b
          \<and> Number b = coerce_int (row_get (DictReader_row h r) (lit ''Number'') (CStr []))"
    by (simp add: make_bio_row_DictReader)
  have 4: "\<exists>st. make_stats_row (DictReader_row h r) = Inr st
           \<and> st (lit ''Number'')
                = Some (IntField (coerce_int (row_get (DictReader_row h r) (lit ''Number'') (CStr []))))
           \<and> (\<forall>k cl. k \<in> set int_fields \<and> k \<noteq> lit ''Number''
                  \<and> map_of (DictReader_row h r) (Some k) = Some cl
                \<longrightarrow> st k = Some (IntField (coerce_int cl)))
           \<and> (\<forall>k. k \<in> set int_fields \<and> k \<noteq> lit ''Number'' \<and> k \<notin> set h \<longrightarrow> st k = None)"
    if short: "length r \<le> length h"
  proof -
    obtain st where st: "make_stats_row (DictReader_row h r) = Inr st"
      using make_stats_row_short[OF short] by blast
    have a: "st k = Some (IntField (coerce_int cl))"
      if "k \<in> set int_fields" "k \<noteq> lit ''Number''" "map_of (DictReader_row h r) (Some k) = Some cl"
      for k cl
      using stats_column[OF st that(3) int_field_names[OF that(1,2)] int_fields_declared[OF that(1)]] that(1)
      by (simp add: convert_def)
    have b: "st k = None" if "k \<in> set int_fields" "k \<noteq> lit ''Number''" "k \<notin> set h" for k
    proof (rule ccontr)
      assume "st k \<noteq> None"
      from stats_names(2)[OF st this] that int_field_names[OF that(1,2)]
      show False by auto
    qed
    from st stats_direct(1)[OF st] a b show ?thesis by blast
  qed
  from 1 2 3 4 show ?thesis by blast
qed

lemma example_int_cells:
  "stats_field (make_stats_row (DictReader_row example_stats_header example_stats_line)) (lit ''Number'')
     = Some (IntField None)
   \<and> stats_field (make_stats_row (DictReader_row example_stats_header example_stats_line)) (lit ''GP'')
     = Some (IntField None)
   \<and> stats_field (make_stats_row (DictReader_row example_stats_header example_stats_line)) (lit ''G'')
     = Some (IntField None)
   \<and> stats_field (make_stats_row (DictReader_row example_stats_header example_stats_line)) (lit ''A'')
     = None
   \<and> stats_field (make_stats_row (DictReader_row example_stats_header example_stats_line)) (lit ''FirstName'')
     = Some (StrField (lit ''Jane''))"
proof -
  let ?d = "DictReader_row example_stats_header example_stats_line"
  have d: "distinct example_stats_header" by (simp add: example_stats_header_def lit_def)
  have n: "length example_stats_header = 5" "length example_stats_line = 4"
    by (simp_all add: example_stats_header_def example_stats_line_def)
  have h: "example_stats_header ! 0 = lit ''Number''" "example_stats_header ! 3 = lit ''GP''"
    "example_stats_header ! 4 = lit ''G''" "example_stats_header ! Suc 0 = lit ''FirstName''"
    by (simp_all add: example_stats_header_def)
  have l: "example_stats_line ! 0 = []" "example_stats_line ! 3 = lit ''n/a''"
    "example_stats_line ! Suc 0 = lit ''Jane''"
    by (simp_all add: example_stats_line_def lit_def)
  have c0: "row_get ?d (lit ''Number'') (CStr []) = CStr []"
    using row_get_cell[OF d, of 0 example_stats_line "CStr []"] by (simp add: n h l)
  have c1: "row_get ?d (lit ''FirstName'') CNone = CStr (lit ''Jane'')"
    using row_get_cell[OF d, of "Suc 0" example_stats_line CNone] by (simp add: n h l)
  have c3: "map_of ?d (Some (lit ''GP'')) = Some (CStr (lit ''n/a''))"
    using DictReader_row_lookup[OF d, of 3 example_stats_line] by (simp add: n h l)
  have c4: "map_of ?d (Some (lit ''G'')) = Some CNone"
    using DictReader_row_lookup[OF d, of 4 example_stats_line] by (simp add: n h l)
  have k: "lit ''GP'' \<in> set int_fields" "lit ''G'' \<in> set int_fields" "lit ''A'' \<in> set int_fields"
    "lit ''GP'' \<noteq> lit ''Number''" "lit ''G'' \<noteq> lit ''Number''" "lit ''A'' \<noteq> lit ''Number''"
    "lit ''A'' \<notin> set example_stats_header"
    by (simp_all add: int_fields_def example_stats_header_def lit_def)
  have v: "coerce_int (CStr (lit ''n/a'')) = None" "coerce_int CNone = None" "coerce_int (CStr []) = None"
    by (simp_all add: coerce_int_def py_int_def py_int_str_def lit_def int_isspace_def py_isspace_def
          parse_decimal_def digit_value_def decimal_digit_zeros_def)
  have w: "py_strip (cell_text (CStr (lit ''Jane''))) = lit ''Jane''"
    by (simp add: cell_text_def py_strip_def lit_def py_isspace_def)
  have s: "length example_stats_line \<le> length example_stats_header" by (simp add: n)
  from int_cells_without_surplus[of _ _ example_stats_header example_stats_line] s
  obtain st where st: "make_stats_row ?d = Inr st"
    "st (lit ''Number'') = Some (IntField (coerce_int (row_get ?d (lit ''Number'') (CStr []))))"
    "\<forall>k cl. k \<in> set int_fields \<and> k \<noteq> lit ''Number'' \<and> map_of ?d (Some k) = Some cl
        \<longrightarrow> st k = Some (IntField (coerce_int cl))"
    "\<forall>k. k \<in> set int_fields \<and> k \<noteq> lit ''Number'' \<and> k \<notin> set example_stats_header \<longrightarrow> st k = None"
    by blast
  have 1: "st (lit ''Number'') = Some (IntField None)" using st(2) by (simp add: c0 v)
  have 2: "st (lit ''GP'') = Some (IntField None)" using st(3) k c3 v by metis
  have 3: "st (lit ''G'') = Some (IntField None)" using st(3) k c4 v by metis
  have 4: "st (lit ''A'') = None" using st(4) k by blast
  have 5: "st (lit ''FirstName'') = Some (StrField (lit ''Jane''))"
    using stats_direct(2)[OF st(1)] by (simp add: c1 w)
  from 1 2 3 4 5 show ?thesis by (simp add: stats_field_def st(1))
qed

text \<open>
  C1.  For every row and every column of the integer set, a cell that is empty, missing
  or not a number is to give \<^verbatim>\<open>None\<close> without an exception, and the row is still to be
  produced.  The bio pass does so for every line, and the stats pass for every line
  without surplus cells.  The stats pass misses it for a line with more cells than
  its header: \<^verbatim>\<open>csv.DictReader\<close> keeps the surplus cells as a list under the key
  \<^verbatim>\<open>None\<close>, the loop over the items of the row calls \<^verbatim>\<open>strip\<close> on that list, and the
  \<^verbatim>\<open>AttributeError\<close> ends the pass.  Here the header is Number, FirstName, LastName, GP,
  G and the line has the six cells "", Jane, Doe, 3, 1, extra: the Number cell is
  empty and coerces to \<^verbatim>\<open>None\<close>, but no record is produced for the row, and the pass over
  the file raises.  The bio pass, which reads its columns by name, returns a record
  with Number \<^verbatim>\<open>None\<close> for the same row.
\<close>

theorem long_stats_row_raises:
  "row_get (DictReader_row example_stats_header long_stats_line) (lit ''Number'') (CStr []) = CStr []
   \<and> coerce_int (CStr []) = None
   \<and> make_stats_row (DictReader_row example_stats_header long_stats_line) = Inl AttributeError
   \<and> make_stats_instances [example_stats_header, long_stats_line] = Inl AttributeError
   \<and> map_sum id Number (make_bio_row (DictReader_row example_stats_header long_stats_line)) = Inr None"
proof -
  let ?d = "DictReader_row example_stats_header long_stats_line"
  have d: "distinct example_stats_header" by (simp add: example_stats_header_def lit_def)
  have n: "length example_stats_header = 5" "length long_stats_line = 6"
    by (simp_all add: example_stats_header_def long_stats_line_def)
  have h: "example_stats_header ! 0 = lit ''Number''" by (simp add: example_stats_header_def)
  have l: "long_stats_line ! 0 = []" by (simp add: long_stats_line_def lit_def)
  have ne: "long_stats_line \<noteq> []" by (simp add: long_stats_line_def)
  have 1: "row_get ?d (lit ''Number'') (CStr []) = CStr []"
    using row_get_cell[OF d, of 0 long_stats_line "CStr []"] by (simp add: n h l)
  have 2: "coerce_int (CStr []) = None" by (simp add: coerce_int_def py_int_empty)
  have 3: "make_stats_row ?d = Inl AttributeError"
    by (rule long_row_raises) (simp add: n)
  have 4: "make_stats_instances [example_stats_header, long_stats_line] = Inl AttributeError"
    using ne by (simp add: make_stats_instances_def DictReader_def 3)
  have 5: "map_sum id Number (make_bio_row ?d) = Inr None"
    by (simp add: make_bio_row_DictReader 1 2)
  from 1 2 3 4 5 show ?thesis by simp
qed

section \<open>The renamed column\<close>




section \<open>Partial schemas\<close>

text \<open>
  For every header, whichever columns it has, and every line without surplus cells
  the stats pass produces a record; a file all of whose lines are so gives the records
  of its lines that are not empty, in their order.  A field of the record that is not
  declared in models.py is never set.
\<close>

lemma partial_schemas_without_surplus:
  "(length r \<le> length h \<longrightarrow>
      (\<exists>st. make_stats_row (DictReader_row h r) = Inr st
         \<and> (\<forall>k. k \<notin> set Stats_fields \<longrightarrow> st k = None)))
   \<and> ((\<forall>l \<in> set rows. length l \<le> length h) \<longrightarrow>
        (\<exists>sts. make_stats_instances (h # rows) = Inr sts
           \<and> map Inr sts = map (\<lambda>l. make_stats_row (DictReader_row h l)) (filter (\<lambda>l. l \<noteq> []) rows)))"
proof (intro conjI impI)
  assume short: "length r \<le> length h"
  obtain st where st: "make_stats_row (DictReader_row h r) = Inr st"
    using make_stats_row_short[OF short] by blast
  with stats_undeclared[OF st]
  show "\<exists>st. make_stats_row (DictReader_row h r) = Inr st
         \<and> (\<forall>k. k \<notin> set Stats_fields \<longrightarrow> st k = None)"
    by blast
next
  assume all: "\<forall>l \<in> set rows. length l \<le> length h"
  have "\<exists>y. make_stats_row x = Inr y" if "x \<in> set (DictReader (h # rows))" for x
  proof -
    from that obtain l where "l \<in> set rows" "x = DictReader_row h l"
      by (auto simp: DictReader_def)
    with all make_stats_row_short[of l h] show ?thesis by auto
  qed
  then have "\<exists>sts. make_stats_instances (h # rows) = Inr sts
                \<and> map Inr sts = map make_stats_row (DictReader (h # rows))"
    unfolding make_stats_instances_def by (rule for_rows_map)
  then show "\<exists>sts. make_stats_instances (h # rows) = Inr sts
           \<and> map Inr sts = map (\<lambda>l. make_stats_row (DictReader_row h l)) (filter (\<lambda>l. l \<noteq> []) rows)"
    by (simp add: DictReader_def comp_def)
qed

text \<open>
  A column that \<^verbatim>\<open>Stats\<close> does not declare: the loop puts its stripped text into the
  keyword dictionary, and the record does not keep it.
\<close>

lemma undeclared_column_is_not_kept:
  "map_sum id (\<lambda>kw. kw (Some (lit ''Team'')))
     (stats_items (DictReader_row partial_header partial_line)
        (direct_fields (DictReader_row partial_header partial_line)))
     = Inr (Some (StrField (lit ''Lakers'')))
   \<and> stats_field (make_stats_row (DictReader_row partial_header partial_line)) (lit ''Team'') = None
   \<and> stats_field (make_stats_row (DictReader_row partial_header partial_line)) (lit ''FirstName'')
     = Some (StrField (lit ''Jane''))"
proof -
  let ?d = "DictReader_row partial_header partial_line"
  have d: "distinct partial_header" by (simp add: partial_header_def lit_def)
  have n: "length partial_header = 3" "length partial_line = 3"
    by (simp_all add: partial_header_def partial_line_def)
  have s: "length partial_line \<le> length partial_header" by (simp add: n)
  have h: "partial_header ! 2 = lit ''Team''" "partial_header ! 0 = lit ''FirstName''"
    by (simp_all add: partial_header_def)
  have l: "partial_line ! 2 = lit '' Lakers ''" "partial_line ! 0 = lit ''Jane''"
    by (simp_all add: partial_line_def)
  have c: "map_of ?d (Some (lit ''Team'')) = Some (CStr (lit '' Lakers ''))"
    using DictReader_row_lookup[OF d, of 2 partial_line] by (simp add: n h l)
  have c0: "row_get ?d (lit ''FirstName'') CNone = CStr (lit ''Jane'')"
    using row_get_cell[OF d, of 0 partial_line CNone] by (simp add: n h l)
  have k: "lit ''Team'' \<notin> set int_fields" "lit ''Team'' \<noteq> lit ''SH_PCT''"
    "lit ''Team'' \<noteq> lit ''PN_PIM''"
    "lit ''Team'' \<notin> set [lit ''Number'', lit ''FirstName'', lit ''LastName'', lit ''PN-PIM'']"
    "lit ''Team'' \<notin> set Stats_fields"
    by (simp_all add: int_fields_def Stats_fields_def lit_def)
  have v: "py_strip (cell_text (CStr (lit '' Lakers ''))) = lit ''Lakers''"
    "py_strip (cell_text (CStr (lit ''Jane''))) = lit ''Jane''"
    by (simp_all add: cell_text_def py_strip_def lit_def py_isspace_def)
  have "fold effect ?d (direct_fields ?d) (Some (lit ''Team''))
          = Some (convert (lit ''Team'') (CStr (lit '' Lakers '')))"
    by (rule fold_effect_column[OF DictReader_row_distinct c k(4) k(3)])
  then have 1: "map_sum id (\<lambda>kw. kw (Some (lit ''Team''))) (stats_items ?d (direct_fields ?d))
                  = Inr (Some (StrField (lit ''Lakers'')))"
    using k(1,2) by (simp add: stats_items_short[OF s] convert_def v)
  obtain st where st: "make_stats_row ?d = Inr st"
    using make_stats_row_short[OF s] by blast
  have 2: "st (lit ''Team'') = None" by (rule stats_undeclared[OF st k(5)])
  have 3: "st (lit ''FirstName'') = Some (StrField (lit ''Jane''))"
    using stats_direct(2)[OF st] by (simp add: c0 v)
  from 1 2 3 show ?thesis by (simp add: stats_field_def st)
qed

text \<open>
  C4.  The stats pass is to give a record for every row, whichever optional columns the
  header has, and no row is to abort the run.  It does so for every file whose lines
  have no surplus cells.  It misses it for a line with more cells than the header has
  columns: the surplus cells are a list under the key \<^verbatim>\<open>None\<close> of the row, the final
  branch of the loop calls \<^verbatim>\<open>strip\<close> on the list, and nothing catches the
  \<^verbatim>\<open>AttributeError\<close>.  Here the header is FirstName, LastName, GP and the only line has
  the four cells Jane, Doe, 3, extra: the stats pass over the file raises and returns no
  record, while the bio pass over the same file returns one.
\<close>

theorem long_line_aborts_the_stats_pass:
  "make_stats_instances long_line_file = Inl AttributeError
   \<and> map_sum id length (make_bio_instances long_line_file) = Inr 1"
proof -
  have "make_stats_row (DictReader_row (map lit [''FirstName'', ''LastName'', ''GP''])
          (map lit [''Jane'', ''Doe'', ''3'', ''extra''])) = Inl AttributeError"
    by (rule long_row_raises) simp
  then have 1: "make_stats_instances long_line_file = Inl AttributeError"
    by (simp add: make_stats_instances_def long_line_file_def DictReader_def)
  have 2: "map_sum id length (make_bio_instances long_line_file) = Inr 1"
    by (simp add: make_bio_instances_def long_line_file_def DictReader_def make_bio_row_DictReader)
  from 1 2 show ?thesis by simp
qed

section \<open>The persistence layer\<close>

lemma accepted_Cons:
  "bios_accepted e d (b # bs)
     \<longleftrightarrow> refuses_bio e d b = None \<and> bios_accepted e (with_bios d [b]) bs"
  "stats_accepted e d (r # rs)
     \<longleftrightarrow> refuses_stats e d r = None \<and> stats_accepted e (with_stats d [r]) rs"
  by (simp_all add: bios_accepted_def stats_accepted_def with_bios_def with_stats_def All_less_Suc2)

lemma insert_bios_accepted:
  "bios_accepted e d bs \<Longrightarrow> insert_bios e bs d = Inr (with_bios d bs)"
proof (induction bs arbitrary: d)
  case Nil
  show ?case by (simp add: with_bios_def)
next
  case (Cons b bs)
  from Cons.prems have a: "refuses_bio e d b = None" "bios_accepted e (with_bios d [b]) bs"
    by (simp_all add: accepted_Cons)
  from Cons.IH[OF a(2)] a(1) show ?case by (simp add: with_bios_def)
qed

lemma insert_bios_refused:
  "\<not> bios_accepted e d bs \<Longrightarrow> \<exists>exc. insert_bios e bs d = Inl exc"
proof (induction bs arbitrary: d)
  case Nil
  then show ?case by (simp add: bios_accepted_def)
next
  case (Cons b bs)
  show ?case
  proof (cases "refuses_bio e d b")
    case (Some exc)
    then show ?thesis by simp
  next
    case None
    with Cons.prems have "\<not> bios_accepted e (with_bios d [b]) bs" by (simp add: accepted_Cons)
    from Cons.IH[OF this] None show ?thesis by (simp add: with_bios_def)
  qed
qed

lemma insert_stats_accepted:
  "stats_accepted e d rs \<Longrightarrow> insert_stats e rs d = Inr (with_stats d rs)"
proof (induction rs arbitrary: d)
  case Nil
  show ?case by (simp add: with_stats_def)
next
  case (Cons r rs)
  from Cons.prems have a: "refuses_stats e d r = None" "stats_accepted e (with_stats d [r]) rs"
    by (simp_all add: accepted_Cons)
  from Cons.IH[OF a(2)] a(1) show ?case by (simp add: with_stats_def)
qed

lemma insert_stats_refused:
  "\<not> stats_accepted e d rs \<Longrightarrow> \<exists>exc. insert_stats e rs d = Inl exc"
proof (induction rs arbitrary: d)
  case Nil
  then show ?case by (simp add: stats_accepted_def)
next
  case (Cons r rs)
  show ?case
  proof (cases "refuses_stats e d r")
    case (Some exc)
    then show ?thesis by simp
  next
    case None
    with Cons.prems have "\<not> stats_accepted e (with_stats d [r]) rs" by (simp add: accepted_Cons)
    from Cons.IH[OF this] None show ?thesis by (simp add: with_stats_def)
  qed
qed

lemma commit_bios:
  "commit e (add_all_bios bios (Session d))
     = (case insert_bios e bios d of
          Inl exc \<Rightarrow> Inl exc
        | Inr d' \<Rightarrow> Inr \<lparr>db = d', new_bios = [], new_stats = []\<rparr>)"
  by (simp add: commit_def add_all_bios_def Session_def bind_err_def split: sum.splits)

lemma commit_stats:
  "commit e (add_all_stats rows \<lparr>db = d, new_bios = [], new_stats = []\<rparr>)
     = (case insert_stats e rows d of
          Inl exc \<Rightarrow> Inl exc
        | Inr d' \<Rightarrow> Inr \<lparr>db = d', new_bios = [], new_stats = []\<rparr>)"
  by (simp add: commit_def add_all_stats_def bind_err_def split: sum.splits)

lemma load_bios_accepted:
  "make_bio_instances bio_csv = Inr bios \<Longrightarrow> bios_accepted e d bios \<Longrightarrow>
     load_bios e bio_csv d = (None, with_bios d bios)"
  by (simp add: load_bios_def commit_bios insert_bios_accepted)

lemma load_bios_refused:
  "make_bio_instances bio_csv = Inr bios \<Longrightarrow> \<not> bios_accepted e d bios \<Longrightarrow>
     fst (load_bios e bio_csv d) \<noteq> None \<and> snd (load_bios e bio_csv d) = d"
  using insert_bios_refused[of e d bios] by (auto simp: load_bios_def commit_bios)

lemma load_stats_accepted:
  "make_stats_instances stats_csv = Inr stats \<Longrightarrow> stats_accepted e d stats \<Longrightarrow>
     load_stats e stats_csv d = (None, with_stats d stats)"
  by (simp add: load_stats_def Session_def commit_stats insert_stats_accepted)

lemma load_stats_refused:
  "make_stats_instances stats_csv = Inr stats \<Longrightarrow> \<not> stats_accepted e d stats \<Longrightarrow>
     fst (load_stats e stats_csv d) \<noteq> None \<and> snd (load_stats e stats_csv d) = d"
  using insert_stats_refused[of e d stats] by (auto simp: load_stats_def Session_def commit_stats)

lemma init_bios_refused:
  "make_bio_instances bio_csv = Inr bios \<Longrightarrow> \<not> bios_accepted e d bios \<Longrightarrow>
     fst (init_script e bio_csv stats_csv d) \<noteq> None \<and> snd (init_script e bio_csv stats_csv d) = d"
  using insert_bios_refused[of e d bios] by (auto simp: init_script_def commit_bios)

lemma init_stats_raise:
  "make_bio_instances bio_csv = Inr bios \<Longrightarrow> bios_accepted e d bios \<Longrightarrow>
   make_stats_instances stats_csv = Inl exc \<Longrightarrow>
     init_script e bio_csv stats_csv d = (Some exc, with_bios d bios)"
  by (simp add: init_script_def commit_bios insert_bios_accepted)

lemma init_stats_accepted:
  "make_bio_instances bio_csv = Inr bios \<Longrightarrow> bios_accepted e d bios \<Longrightarrow>
   make_stats_instances stats_csv = Inr stats \<Longrightarrow> stats_accepted e (with_bios d bios) stats \<Longrightarrow>
     init_script e bio_csv stats_csv d = (None, with_stats (with_bios d bios) stats)"
  by (simp add: init_script_def commit_bios insert_bios_accepted commit_stats insert_stats_accepted)

lemma init_stats_refused:
  "make_bio_instances bio_csv = Inr bios \<Longrightarrow> bios_accepted e d bios \<Longrightarrow>
   make_stats_instances stats_csv = Inr stats \<Longrightarrow> \<not> stats_accepted e (with_bios d bios) stats \<Longrightarrow>
     fst (init_script e bio_csv stats_csv d) \<noteq> None
     \<and> snd (init_script e bio_csv stats_csv d) = with_bios d bios"
  using insert_stats_refused[of e "with_bios d bios" stats]
  by (auto simp: init_script_def commit_bios insert_bios_accepted commit_stats)

text \<open>
  C5, as the code has it.  A commit is one transaction, so each batch is inserted as a
  whole or not at all.  \<^verbatim>\<open>load_bios\<close> extends the bio table by the whole batch when the
  engine accepts every record of it, each inserted after the ones before it; when the
  engine refuses one, the load ends with an exception and leaves the database as it
  was, without the records that were inserted before the refused one.  So does
  \<^verbatim>\<open>load_stats\<close> with the stats table, and when the stats pass raises nothing is
  written.  init.py commits twice, the bio batch and then the stats batch: when a bio
  is refused nothing is written; when the stats pass raises or a stats record is
  refused the bio batch stays committed and no stats record is written; otherwise both
  batches are written.
\<close>

theorem each_batch_is_one_transaction:
  "(make_bio_instances bio_csv = Inr bios \<longrightarrow>
        (bios_accepted e d bios \<longrightarrow> load_bios e bio_csv d = (None, with_bios d bios))
      \<and> (\<not> bios_accepted e d bios \<longrightarrow>
           fst (load_bios e bio_csv d) \<noteq> None \<and> snd (load_bios e bio_csv d) = d))
   \<and> (make_stats_instances stats_csv = Inl exc \<longrightarrow> load_stats e stats_csv d = (Some exc, d))
   \<and> (make_stats_instances stats_csv = Inr stats \<longrightarrow>
        (stats_accepted e d stats \<longrightarrow> load_stats e stats_csv d = (None, with_stats d stats))
      \<and> (\<not> stats_accepted e d stats \<longrightarrow>
           fst (load_stats e stats_csv d) \<noteq> None \<and> snd (load_stats e stats_csv d) = d))
   \<and> (make_bio_instances bio_csv = Inr bios \<and> \<not> bios_accepted e d bios \<longrightarrow>
        fst (init_script e bio_csv stats_csv d) \<noteq> None
        \<and> snd (init_script e bio_csv stats_csv d) = d)
   \<and> (make_bio_instances bio_csv = Inr bios \<and> bios_accepted e d bios \<longrightarrow>
        (make_stats_instances stats_csv = Inl exc \<longrightarrow>
           init_script e bio_csv stats_csv d = (Some exc, with_bios d bios))
      \<and> (make_stats_instances stats_csv = Inr stats \<longrightarrow>
           (stats_accepted e (with_bios d bios) stats \<longrightarrow>
              init_script e bio_csv stats_csv d = (None, with_stats (with_bios d bios) stats))
         \<and> (\<not> stats_accepted e (with_bios d bios) stats \<longrightarrow>
              fst (init_script e bio_csv stats_csv d) \<noteq> None
              \<and> snd (init_script e bio_csv stats_csv d) = with_bios d bios)))"
proof -
  have 1: "make_stats_instances stats_csv = Inl exc \<longrightarrow> load_stats e stats_csv d = (Some exc, d)"
    by (simp add: load_stats_def)
  show ?thesis
    using load_bios_accepted[of bio_csv bios e d] load_bios_refused[of bio_csv bios e d] 1
      load_stats_accepted[of stats_csv stats e d] load_stats_refused[of stats_csv stats e d]
      init_bios_refused[of bio_csv bios e d stats_csv]
      init_stats_raise[of bio_csv bios e d stats_csv exc]
      init_stats_accepted[of bio_csv bios e d stats_csv stats]
      init_stats_refused[of bio_csv bios e d stats_csv stats]
    by blast
qed

lemma stats_integers_without_int_column:
  assumes st: "make_stats_row (DictReader_row h r) = Inr st"
    and h: "\<forall>k \<in> set h. k \<notin> set int_fields"
  shows "stats_integers st"
proof -
  have "case st k of Some (IntField v) \<Rightarrow> sqlite_integer v | _ \<Rightarrow> True" if k: "k \<in> set int_fields" for k
  proof (cases "k = lit ''Number''")
    case True
    with h k have "lit ''Number'' \<notin> set h" by auto
    then have "row_get (DictReader_row h r) (lit ''Number'') (CStr []) = CStr []"
      by (rule row_get_missing)
    with stats_direct(1)[OF st] have "st (lit ''Number'') = Some (IntField None)"
      by (simp add: coerce_int_def py_int_empty)
    with True show ?thesis by (simp add: sqlite_integer_def)
  next
    case False
    have "st k = None"
    proof (rule ccontr)
      assume "st k \<noteq> None"
      from stats_names(2)[OF st this] h k int_field_names[OF k False]
      show False by auto
    qed
    then show ?thesis by simp
  qed
  then show ?thesis by (simp add: stats_integers_def list_all_iff)
qed

lemma key_lines:
  "jane_doe_line \<noteq> []" "john_roe_line \<noteq> []"
  "length jane_doe_line \<le> length key_header" "length john_roe_line \<le> length key_header"
  "\<forall>k \<in> set key_header. k \<notin> set int_fields" "lit ''Number'' \<notin> set key_header"
  by (simp_all add: jane_doe_line_def john_roe_line_def key_header_def int_fields_def lit_def)

lemma jane_doe_bios:
  "\<exists>b b2. Number b = None
      \<and> make_bio_instances [key_header, jane_doe_line] = Inr [b]
      \<and> make_bio_instances colliding_file = Inr [b, b2, b]"
proof -
  have n: "coerce_int (row_get (DictReader_row key_header l) (lit ''Number'') (CStr [])) = None" for l
    by (simp add: row_get_missing[OF key_lines(6)] coerce_int_def py_int_empty)
  show ?thesis
    by (simp add: make_bio_instances_def DictReader_def colliding_file_def key_lines
          make_bio_row_DictReader n)
qed

lemma jane_doe_stats:
  "\<exists>st s2. stats_integers st
      \<and> make_stats_instances [key_header, jane_doe_line] = Inr [st]
      \<and> make_stats_instances [key_header, jane_doe_line, jane_doe_line] = Inr [st, st]
      \<and> make_stats_instances colliding_file = Inr [st, s2, st]"
proof -
  obtain st where st: "make_stats_row (DictReader_row key_header jane_doe_line) = Inr st"
    using make_stats_row_short[OF key_lines(3)] by blast
  obtain s2 where s2: "make_stats_row (DictReader_row key_header john_roe_line) = Inr s2"
    using make_stats_row_short[OF key_lines(4)] by blast
  have i: "stats_integers st"
    by (rule stats_integers_without_int_column[OF st key_lines(5)])
  have "make_stats_instances [key_header, jane_doe_line] = Inr [st]"
    "make_stats_instances [key_header, jane_doe_line, jane_doe_line] = Inr [st, st]"
    "make_stats_instances colliding_file = Inr [st, s2, st]"
    by (simp_all add: make_stats_instances_def DictReader_def colliding_file_def key_lines st s2)
  with i show ?thesis by blast
qed

theorem each_batch_is_one_transaction_witness:
  "fst (load_bios sqlite colliding_file empty_db) \<noteq> None
   \<and> snd (load_bios sqlite colliding_file empty_db) = empty_db
   \<and> fst (load_bios sqlite [key_header, jane_doe_line] empty_db) = None
   \<and> length (bio_table (snd (load_bios sqlite [key_header, jane_doe_line] empty_db))) = 1
   \<and> fst (init_script sqlite [key_header, jane_doe_line] colliding_file empty_db) \<noteq> None
   \<and> length (bio_table (snd (init_script sqlite [key_header, jane_doe_line] colliding_file empty_db))) = 1
   \<and> stats_table (snd (init_script sqlite [key_header, jane_doe_line] colliding_file empty_db)) = []"
proof -
  obtain b b2 where b: "Number b = None"
    "make_bio_instances [key_header, jane_doe_line] = Inr [b]"
    "make_bio_instances colliding_file = Inr [b, b2, b]"
    using jane_doe_bios by blast
  obtain st s2 where st: "make_stats_instances colliding_file = Inr [st, s2, st]"
    using jane_doe_stats by blast
  have r1: "\<not> bios_accepted sqlite empty_db [b, b2, b]"
  proof
    assume a: "bios_accepted sqlite empty_db [b, b2, b]"
    have "refuses_bio sqlite (with_bios empty_db (take 2 [b, b2, b])) ([b, b2, b] ! 2) = None"
      using a[unfolded bios_accepted_def, rule_format, of 2] by simp
    then show False by (simp add: sqlite_def with_bios_def split: if_splits)
  qed
  have a1: "bios_accepted sqlite empty_db [b]"
    by (simp add: bios_accepted_def sqlite_def sqlite_integer_def with_bios_def empty_db_def b(1))
  have r2: "\<not> stats_accepted sqlite (with_bios empty_db [b]) [st, s2, st]"
  proof
    assume a: "stats_accepted sqlite (with_bios empty_db [b]) [st, s2, st]"
    have "refuses_stats sqlite (with_stats (with_bios empty_db [b]) (take 2 [st, s2, st]))
                 ([st, s2, st] ! 2) = None"
      using a[unfolded stats_accepted_def, rule_format, of 2] by simp
    then show False by (simp add: sqlite_def with_stats_def split: if_splits)
  qed
  note t1 = each_batch_is_one_transaction[of colliding_file "[b, b2, b]" sqlite empty_db]
  note t2 = each_batch_is_one_transaction[of "[key_header, jane_doe_line]" "[b]" sqlite empty_db
              colliding_file _ "[st, s2, st]"]
  from t1 b(3) r1
  have 1: "fst (load_bios sqlite colliding_file empty_db) \<noteq> None
           \<and> snd (load_bios sqlite colliding_file empty_db) = empty_db"
    by blast
  from t2 b(2) a1
  have 2: "load_bios sqlite [key_header, jane_doe_line] empty_db = (None, with_bios empty_db [b])"
    by blast
  from t2 b(2) a1 st r2
  have 3: "fst (init_script sqlite [key_header, jane_doe_line] colliding_file empty_db) \<noteq> None
           \<and> snd (init_script sqlite [key_header, jane_doe_line] colliding_file empty_db)
               = with_bios empty_db [b]"
    by blast
  from 1 2 3 show ?thesis by (simp add: with_bios_def empty_db_def)
qed

text \<open>
  C5 as stated fails for init.py: with one bio and a stats file that has the same key
  twice, the second stats record is refused and the run ends with the exception; no
  stats record is in the database, yet the bio record is.
\<close>

theorem bio_batch_stays_when_stats_batch_fails:
  "fst (init_script sqlite [key_header, jane_doe_line]
          [key_header, jane_doe_line, jane_doe_line] empty_db) = Some IntegrityError
   \<and> length (bio_table (snd (init_script sqlite [key_header, jane_doe_line]
                                [key_header, jane_doe_line, jane_doe_line] empty_db))) = 1
   \<and> stats_table (snd (init_script sqlite [key_header, jane_doe_line]
                         [key_header, jane_doe_line, jane_doe_line] empty_db)) = []"
proof -
  obtain b b2 where b: "Number b = None" "make_bio_instances [key_header, jane_doe_line] = Inr [b]"
    using jane_doe_bios by blast
  obtain st s2 where st: "stats_integers st"
    "make_stats_instances [key_header, jane_doe_line, jane_doe_line] = Inr [st, st]"
    using jane_doe_stats by blast
  have "init_script sqlite [key_header, jane_doe_line]
          [key_header, jane_doe_line, jane_doe_line] empty_db
          = (Some IntegrityError, \<lparr>bio_table = [b], stats_table = []\<rparr>)"
    by (simp add: init_script_def b st commit_bios commit_stats sqlite_def sqlite_integer_def
          empty_db_def)
  then show ?thesis by simp
qed

text \<open>
  The engine of the examples refuses an integer that SQLite cannot hold: the load ends
  with \<^verbatim>\<open>OverflowError\<close>, and nothing is written.
\<close>

lemma large_number_is_refused:
  "load_bios sqlite large_number_file empty_db = (Some OverflowError, empty_db)"
proof -
  let ?h = "[lit ''Number'', lit ''FirstName'', lit ''LastName'']"
  let ?l = "[lit ''9223372036854775808'', lit ''Jane'', lit ''Doe'']"
  have d: "distinct ?h" by (simp add: lit_def)
  have c: "row_get (DictReader_row ?h ?l) (lit ''Number'') (CStr []) = CStr (lit ''9223372036854775808'')"
    using row_get_cell[OF d, of 0 ?l "CStr []"] by simp
  have v: "coerce_int (CStr (lit ''9223372036854775808'')) = Some 9223372036854775808"
    by (simp add: coerce_int_def py_int_def py_int_str_def lit_def int_isspace_def py_isspace_def
          parse_decimal_def is_digit_def digit_value_ascii)
  have "\<exists>b. make_bio_instances large_number_file = Inr [b] \<and> Number b = Some 9223372036854775808"
    by (simp add: make_bio_instances_def DictReader_def large_number_file_def
          make_bio_row_DictReader c v)
  then obtain b where b: "make_bio_instances large_number_file = Inr [b]"
    "Number b = Some 9223372036854775808"
    by blast
  show ?thesis
    by (simp add: load_bios_def b commit_bios sqlite_def sqlite_integer_def)
qed

end
